theory Spec2Isabelle
  imports Main "HOL-Library.Word"
begin

section \<open>JavaScript strings\<close>

text \<open>
  A JavaScript string is a sequence of UTF-16 code units; \<open>String.length\<close> counts code
  units.  String literals of the source are ASCII and are written \<open>js ''...''\<close>.
\<close>

type_synonym cu = "16 word"
type_synonym jsstring = "cu list"

definition js :: "string \<Rightarrow> jsstring" where
  "js s = map of_char s"

text \<open>\<open>Number.prototype.toString\<close> on integers, as used by template literals.\<close>

definition digit_cu :: "nat \<Rightarrow> cu" where
  "digit_cu d = of_nat (48 + d)"

function decimal :: "nat \<Rightarrow> jsstring" where
  "decimal n = (if n < 10 then [digit_cu n] else decimal (n div 10) @ [digit_cu (n mod 10)])"
  by pat_completeness auto
termination
  by (relation "measure (\<lambda>n. n)") auto

declare decimal.simps [simp del]

definition show_int :: "int \<Rightarrow> jsstring" where
  "show_int i = (if i < 0 then js ''-'' @ decimal (nat (- i)) else decimal (nat i))"

text \<open>\<open>String.prototype.includes\<close>, \<open>Array.prototype.join\<close> and \<open>split('/').pop()\<close>.\<close>

fun includes_js :: "jsstring \<Rightarrow> jsstring \<Rightarrow> bool" where
  "includes_js [] p = (p = [])"
| "includes_js (c # cs) p = (take (length p) (c # cs) = p \<or> includes_js cs p)"

fun join :: "jsstring \<Rightarrow> jsstring list \<Rightarrow> jsstring" where
  "join sep [] = []"
| "join sep [x] = x"
| "join sep (x # y # ys) = x @ sep @ join sep (y # ys)"

fun last_segment :: "jsstring \<Rightarrow> jsstring \<Rightarrow> jsstring" where
  "last_segment acc [] = acc"
| "last_segment acc (c # cs) = (if c = 0x2F then last_segment [] cs else last_segment (acc @ [c]) cs)"

section \<open>JSON values and \<open>JSON.stringify\<close>\<close>

text \<open>
  Rows, parameters and response bodies are JSON values.  Numbers are the integers (printed
  in plain decimal); an object lists its properties in enumeration order.
\<close>

datatype json =
    JNull
  | JBool bool
  | JNum int
  | JStr jsstring
  | JArr "json list"
  | JObj "(jsstring \<times> json) list"

definition hex_digit :: "nat \<Rightarrow> cu" where
  "hex_digit d = (if d < 10 then of_nat (48 + d) else of_nat (87 + d))"

definition UnicodeEscape :: "cu \<Rightarrow> jsstring" where
  "UnicodeEscape c = [0x5C, 0x75] @
     [hex_digit (unat c div 4096), hex_digit (unat c div 256 mod 16),
      hex_digit (unat c div 16 mod 16), hex_digit (unat c mod 16)]"

definition is_lead :: "cu \<Rightarrow> bool" where
  "is_lead c = (0xD800 \<le> c \<and> c \<le> 0xDBFF)"

definition is_trail :: "cu \<Rightarrow> bool" where
  "is_trail c = (0xDC00 \<le> c \<and> c \<le> 0xDFFF)"

definition quote_unit :: "cu \<Rightarrow> jsstring" where
  "quote_unit c =
    (if c = 0x08 then [0x5C, 0x62]
     else if c = 0x09 then [0x5C, 0x74]
     else if c = 0x0A then [0x5C, 0x6E]
     else if c = 0x0C then [0x5C, 0x66]
     else if c = 0x0D then [0x5C, 0x72]
     else if c = 0x22 then [0x5C, 0x22]
     else if c = 0x5C then [0x5C, 0x5C]
     else if c < 0x20 \<or> is_lead c \<or> is_trail c then UnicodeEscape c
     else [c])"

fun quote_units :: "jsstring \<Rightarrow> jsstring" where
  "quote_units [] = []"
| "quote_units [c] = quote_unit c"
| "quote_units (c # d # cs) =
    (if is_lead c \<and> is_trail d then c # d # quote_units cs
     else quote_unit c @ quote_units (d # cs))"

definition QuoteJSONString :: "jsstring \<Rightarrow> jsstring" where
  "QuoteJSONString s = [0x22] @ quote_units s @ [0x22]"

text \<open>
  \<open>stringify g i v\<close> is \<open>JSON.stringify(v, null, g)\<close> at the current indentation of \<open>i\<close>
  spaces: \<open>g = 0\<close> is the compact form, \<open>g = 2\<close> the form written to the result bucket.
\<close>

definition newline_indent :: "nat \<Rightarrow> jsstring" where
  "newline_indent i = 0x0A # replicate i 0x20"

definition wrap :: "cu \<Rightarrow> cu \<Rightarrow> nat \<Rightarrow> nat \<Rightarrow> jsstring list \<Rightarrow> jsstring" where
  "wrap opn cls g i partial =
    (if partial = [] then [opn, cls]
     else if g = 0 then [opn] @ join [0x2C] partial @ [cls]
     else [opn] @ newline_indent (i + g) @ join (0x2C # newline_indent (i + g)) partial
          @ newline_indent i @ [cls])"

fun stringify :: "nat \<Rightarrow> nat \<Rightarrow> json \<Rightarrow> jsstring"
and stringify_elements :: "nat \<Rightarrow> nat \<Rightarrow> json list \<Rightarrow> jsstring list"
and stringify_members :: "nat \<Rightarrow> nat \<Rightarrow> (jsstring \<times> json) list \<Rightarrow> jsstring list" where
  "stringify g i JNull = js ''null''"
| "stringify g i (JBool b) = (if b then js ''true'' else js ''false'')"
| "stringify g i (JNum n) = show_int n"
| "stringify g i (JStr s) = QuoteJSONString s"
| "stringify g i (JArr xs) = wrap 0x5B 0x5D g i (stringify_elements g (i + g) xs)"
| "stringify g i (JObj kvs) = wrap 0x7B 0x7D g i (stringify_members g (i + g) kvs)"
| "stringify_elements g i [] = []"
| "stringify_elements g i (x # xs) = stringify g i x # stringify_elements g i xs"
| "stringify_members g i [] = []"
| "stringify_members g i ((k, v) # kvs) =
     (QuoteJSONString k @ [0x3A] @ (if g = 0 then [] else [0x20]) @ stringify g i v)
       # stringify_members g i kvs"

definition JSON_stringify :: "json \<Rightarrow> jsstring" where
  "JSON_stringify v = stringify 0 0 v"

definition JSON_stringify_pretty :: "json \<Rightarrow> jsstring" where
  "JSON_stringify_pretty v = stringify 2 0 v"


section \<open>\<open>JSON.parse\<close>\<close>

text \<open>
  A recursive-descent reader of JSON text.  The recursion is on a fuel argument; every call
  consumes at least one code unit, so the length of the text is fuel enough.  A literal
  with a fraction or an exponent has no value among the modelled numbers and is refused,
  where \<open>JSON.parse\<close> would return a number outside the model.  The properties of an object
  are kept in the order of the text, a repeated name keeping its first place and its last
  value; JavaScript lists names that are array indices first, so the two agree on the
  texts none of whose property names is an array index.  Apart from the refused literals,
  failure (\<open>None\<close>) is the \<open>SyntaxError\<close> of \<open>JSON.parse\<close>.
\<close>

definition is_ws :: "cu \<Rightarrow> bool" where
  "is_ws c = (c = 0x20 \<or> c = 0x09 \<or> c = 0x0A \<or> c = 0x0D)"

definition skip_ws :: "jsstring \<Rightarrow> jsstring" where
  "skip_ws s = dropWhile is_ws s"

definition is_digit :: "cu \<Rightarrow> bool" where
  "is_digit c = (0x30 \<le> c \<and> c \<le> 0x39)"

definition digits_value :: "jsstring \<Rightarrow> nat" where
  "digits_value ds = foldl (\<lambda>a d. 10 * a + (unat d - 48)) 0 ds"

definition hex_value :: "cu \<Rightarrow> nat option" where
  "hex_value c =
    (if 0x30 \<le> c \<and> c \<le> 0x39 then Some (unat c - 48)
     else if 0x61 \<le> c \<and> c \<le> 0x66 then Some (unat c - 87)
     else if 0x41 \<le> c \<and> c \<le> 0x46 then Some (unat c - 55)
     else None)"

definition unescape :: "cu \<Rightarrow> cu option" where
  "unescape e =
    (if e = 0x22 then Some 0x22
     else if e = 0x5C then Some 0x5C
     else if e = 0x2F then Some 0x2F
     else if e = 0x62 then Some 0x08
     else if e = 0x66 then Some 0x0C
     else if e = 0x6E then Some 0x0A
     else if e = 0x72 then Some 0x0D
     else if e = 0x74 then Some 0x09
     else None)"

definition hex4 :: "cu \<Rightarrow> cu \<Rightarrow> cu \<Rightarrow> cu \<Rightarrow> cu option" where
  "hex4 h1 h2 h3 h4 =
    (case (hex_value h1, hex_value h2, hex_value h3, hex_value h4) of
       (Some a, Some b, Some c, Some d) \<Rightarrow> Some (of_nat (4096 * a + 256 * b + 16 * c + d))
     | _ \<Rightarrow> None)"

definition cons_result :: "cu \<Rightarrow> (jsstring \<times> jsstring) option \<Rightarrow> (jsstring \<times> jsstring) option" where
  "cons_result u r = (case r of None \<Rightarrow> None | Some (s, rest) \<Rightarrow> Some (u # s, rest))"

text \<open>The characters of a string literal, after its opening quote, up to the closing one.\<close>

fun parse_chars :: "jsstring \<Rightarrow> (jsstring \<times> jsstring) option" where
  "parse_chars [] = None"
| "parse_chars (c # cs) =
    (if c = 0x22 then Some ([], cs)
     else if c = 0x5C then
       (case cs of
          [] \<Rightarrow> None
        | e # r \<Rightarrow>
            if e = 0x75 then
              (case r of
                 h1 # h2 # h3 # h4 # r' \<Rightarrow>
                   (case hex4 h1 h2 h3 h4 of
                      None \<Rightarrow> None
                    | Some u \<Rightarrow> cons_result u (parse_chars r'))
               | _ \<Rightarrow> None)
            else (case unescape e of
                    None \<Rightarrow> None
                  | Some u \<Rightarrow> cons_result u (parse_chars r)))
     else if c < 0x20 then None
     else cons_result c (parse_chars cs))"

definition parse_number :: "jsstring \<Rightarrow> (json \<times> jsstring) option" where
  "parse_number s =
    (let neg = (s \<noteq> [] \<and> hd s = 0x2D);
         s1 = (if neg then tl s else s);
         ds = takeWhile is_digit s1;
         rest = dropWhile is_digit s1
     in if ds = [] then None
        else if 1 < length ds \<and> hd ds = 0x30 then None
        else if rest \<noteq> [] \<and> (hd rest = 0x2E \<or> hd rest = 0x65 \<or> hd rest = 0x45) then None
        else Some (JNum (if neg then - int (digits_value ds) else int (digits_value ds)), rest))"

definition parse_keyword :: "jsstring \<Rightarrow> json \<Rightarrow> jsstring \<Rightarrow> (json \<times> jsstring) option" where
  "parse_keyword kw v s = (if take (length kw) s = kw then Some (v, drop (length kw) s) else None)"

text \<open>
  \<open>JSON.parse\<close> keeps the last value of a repeated property name, at the position of its
  first occurrence.
\<close>

fun set_prop :: "jsstring \<Rightarrow> json \<Rightarrow> (jsstring \<times> json) list \<Rightarrow> (jsstring \<times> json) list" where
  "set_prop k v [] = [(k, v)]"
| "set_prop k v ((k', v') # kvs) = (if k = k' then (k, v) # kvs else (k', v') # set_prop k v kvs)"

definition object_of_members :: "(jsstring \<times> json) list \<Rightarrow> json" where
  "object_of_members kvs = JObj (foldl (\<lambda>acc (k, v). set_prop k v acc) [] kvs)"

fun parse_value :: "nat \<Rightarrow> jsstring \<Rightarrow> (json \<times> jsstring) option"
and parse_elements :: "nat \<Rightarrow> jsstring \<Rightarrow> (json list \<times> jsstring) option"
and parse_members :: "nat \<Rightarrow> jsstring \<Rightarrow> ((jsstring \<times> json) list \<times> jsstring) option" where
  "parse_value 0 s = None"
| "parse_value (Suc n) s =
    (case skip_ws s of
       [] \<Rightarrow> None
     | c # r \<Rightarrow>
        if c = 0x5B then
          (case skip_ws r of
             [] \<Rightarrow> None
           | d # r' \<Rightarrow>
               if d = 0x5D then Some (JArr [], r')
               else (case parse_elements n (d # r') of
                       None \<Rightarrow> None
                     | Some (xs, r'') \<Rightarrow> Some (JArr xs, r'')))
        else if c = 0x7B then
          (case skip_ws r of
             [] \<Rightarrow> None
           | d # r' \<Rightarrow>
               if d = 0x7D then Some (JObj [], r')
               else (case parse_members n (d # r') of
                       None \<Rightarrow> None
                     | Some (kvs, r'') \<Rightarrow> Some (object_of_members kvs, r'')))
        else if c = 0x22 then
          (case parse_chars r of
             None \<Rightarrow> None
           | Some (str, r') \<Rightarrow> Some (JStr str, r'))
        else if c = 0x74 then parse_keyword (js ''true'') (JBool True) (c # r)
        else if c = 0x66 then parse_keyword (js ''false'') (JBool False) (c # r)
        else if c = 0x6E then parse_keyword (js ''null'') JNull (c # r)
        else parse_number (c # r))"
| "parse_elements 0 s = None"
| "parse_elements (Suc n) s =
    (case parse_value n s of
       None \<Rightarrow> None
     | Some (v, r) \<Rightarrow>
        (case skip_ws r of
           [] \<Rightarrow> None
         | c # r' \<Rightarrow>
             if c = 0x2C then
               (case parse_elements n r' of
                  None \<Rightarrow> None
                | Some (vs, r'') \<Rightarrow> Some (v # vs, r''))
             else if c = 0x5D then Some ([v], r')
             else None))"
| "parse_members 0 s = None"
| "parse_members (Suc n) s =
    (case skip_ws s of
       [] \<Rightarrow> None
     | q # r \<Rightarrow>
        if q \<noteq> 0x22 then None
        else (case parse_chars r of
                None \<Rightarrow> None
              | Some (k, r1) \<Rightarrow>
                 (case skip_ws r1 of
                    [] \<Rightarrow> None
                  | c # r2 \<Rightarrow>
                     if c \<noteq> 0x3A then None
                     else (case parse_value n r2 of
                             None \<Rightarrow> None
                           | Some (v, r3) \<Rightarrow>
                              (case skip_ws r3 of
                                 [] \<Rightarrow> None
                               | d # r4 \<Rightarrow>
                                  if d = 0x2C then
                                    (case parse_members n r4 of
                                       None \<Rightarrow> None
                                     | Some (kvs, r5) \<Rightarrow> Some ((k, v) # kvs, r5))
                                  else if d = 0x7D then Some ([(k, v)], r4)
                                  else None)))))"

definition JSON_parse :: "jsstring \<Rightarrow> json option" where
  "JSON_parse s =
    (case parse_value (Suc (length s)) s of
       None \<Rightarrow> None
     | Some (v, rest) \<Rightarrow> if skip_ws rest = [] then Some v else None)"


section \<open>JavaScript values at the boundary\<close>

text \<open>
  A thrown error is known to the handlers by its constructor name and its message.  An
  optional value is a possibly \<open>undefined\<close> one.
\<close>

record js_error =
  err_type :: jsstring
  err_message :: jsstring

definition Error :: "jsstring \<Rightarrow> js_error" where
  "Error m = \<lparr>err_type = js ''Error'', err_message = m\<rparr>"

definition TypeError :: "jsstring \<Rightarrow> js_error" where
  "TypeError m = \<lparr>err_type = js ''TypeError'', err_message = m\<rparr>"

definition SyntaxError :: "jsstring \<Rightarrow> js_error" where
  "SyntaxError m = \<lparr>err_type = js ''SyntaxError'', err_message = m\<rparr>"

fun truthy :: "json \<Rightarrow> bool" where
  "truthy JNull = False"
| "truthy (JBool b) = b"
| "truthy (JNum n) = (n \<noteq> 0)"
| "truthy (JStr s) = (s \<noteq> [])"
| "truthy (JArr xs) = True"
| "truthy (JObj kvs) = True"

fun ToString :: "json \<Rightarrow> jsstring"
and ToString_elements :: "json list \<Rightarrow> jsstring list" where
  "ToString JNull = js ''null''"
| "ToString (JBool b) = (if b then js ''true'' else js ''false'')"
| "ToString (JNum n) = show_int n"
| "ToString (JStr s) = s"
| "ToString (JArr xs) = join [0x2C] (ToString_elements xs)"
| "ToString (JObj kvs) = js ''[object Object]''"
| "ToString_elements [] = []"
| "ToString_elements (x # xs) = (if x = JNull then [] else ToString x) # ToString_elements xs"

definition template :: "json option \<Rightarrow> jsstring" where
  "template v = (case v of None \<Rightarrow> js ''undefined'' | Some x \<Rightarrow> ToString x)"

text \<open>\<open>v.name\<close>: a property read throws on \<open>null\<close> and finds nothing on a primitive.\<close>

definition get_prop :: "json \<Rightarrow> jsstring \<Rightarrow> js_error + json option" where
  "get_prop v name =
    (case v of
       JNull \<Rightarrow> Inl (TypeError (js ''Cannot read properties of null (reading '' @ [0x27] @ name @ [0x27] @ js '')''))
     | JObj kvs \<Rightarrow> Inr (map_of kvs name)
     | _ \<Rightarrow> Inr None)"

text \<open>
  \<open>v.length\<close> where it is only compared or copied: the length of an array or a string, and
  \<open>undefined\<close> on a number, a boolean or an object.  An object is taken to have no property
  of its own named \<open>length\<close>; the rows of a query and the objects built by the reports
  have none.
\<close>

fun js_length :: "json \<Rightarrow> nat option" where
  "js_length (JArr xs) = Some (length xs)"
| "js_length (JStr s) = Some (length s)"
| "js_length v = None"

text \<open>An object literal; a property whose value is \<open>undefined\<close> is left out by \<open>JSON.stringify\<close>.\<close>

fun object_literal :: "(jsstring \<times> json option) list \<Rightarrow> (jsstring \<times> json) list" where
  "object_literal [] = []"
| "object_literal ((k, None) # kvs) = object_literal kvs"
| "object_literal ((k, Some v) # kvs) = (k, v) # object_literal kvs"

definition num_opt :: "nat option \<Rightarrow> json option" where
  "num_opt n = map_option (\<lambda>k. JNum (int k)) n"

section \<open>The sandbox patterns\<close>

text \<open>
  The nine regular expressions of \<open>validateCustomQuery\<close> are sequences of literal
  characters, \<open>\\s+\<close> and \<open>\\w+\<close>, all under the \<open>i\<close> flag.  \<open>test\<close> succeeds when the
  pattern matches at some position of the text.
\<close>

datatype atom = Lit cu | Space | Word

datatype item = One atom | Many1 atom

definition is_space :: "cu \<Rightarrow> bool" where
  "is_space c =
    (c = 0x09 \<or> c = 0x0A \<or> c = 0x0B \<or> c = 0x0C \<or> c = 0x0D \<or> c = 0x20 \<or> c = 0xA0
     \<or> c = 0x1680 \<or> (0x2000 \<le> c \<and> c \<le> 0x200A) \<or> c = 0x2028 \<or> c = 0x2029
     \<or> c = 0x202F \<or> c = 0x205F \<or> c = 0x3000 \<or> c = 0xFEFF)"

definition is_word :: "cu \<Rightarrow> bool" where
  "is_word c =
    ((0x41 \<le> c \<and> c \<le> 0x5A) \<or> (0x61 \<le> c \<and> c \<le> 0x7A) \<or> (0x30 \<le> c \<and> c \<le> 0x39) \<or> c = 0x5F)"

text \<open>Without the \<open>u\<close> flag, case folding relates an ASCII letter only to its other case.\<close>

definition upper :: "cu \<Rightarrow> cu" where
  "upper c = (if 0x61 \<le> c \<and> c \<le> 0x7A then c - 0x20 else c)"

fun atom_match :: "atom \<Rightarrow> cu \<Rightarrow> bool" where
  "atom_match (Lit l) c = (upper c = upper l)"
| "atom_match Space c = is_space c"
| "atom_match Word c = is_word c"

fun match_here :: "item list \<Rightarrow> jsstring \<Rightarrow> bool" where
  "match_here [] s = True"
| "match_here (One a # r) [] = False"
| "match_here (One a # r) (c # s) = (atom_match a c \<and> match_here r s)"
| "match_here (Many1 a # r) [] = False"
| "match_here (Many1 a # r) (c # s) = (atom_match a c \<and> (match_here (Many1 a # r) s \<or> match_here r s))"

fun test :: "item list \<Rightarrow> jsstring \<Rightarrow> bool" where
  "test p [] = match_here p []"
| "test p (c # s) = (match_here p (c # s) \<or> test p s)"

definition lit :: "string \<Rightarrow> item list" where
  "lit s = map (\<lambda>c. One (Lit (of_char c))) s"

definition forbiddenPatterns :: "item list list" where
  "forbiddenPatterns =
    [lit ''DROP'' @ [Many1 Space],
     lit ''DELETE'' @ [Many1 Space] @ lit ''FROM'',
     lit ''TRUNCATE'' @ [Many1 Space],
     lit ''INSERT'' @ [Many1 Space] @ lit ''INTO'',
     lit ''UPDATE'' @ [Many1 Space, Many1 Word, Many1 Space] @ lit ''SET'',
     lit ''CREATE'' @ [Many1 Space],
     lit ''ALTER'' @ [Many1 Space],
     lit ''GRANT'' @ [Many1 Space],
     lit ''REVOKE'' @ [Many1 Space]]"

text \<open>
  \<open>validateCustomQuery\<close> returns the error it throws, if any.  \<open>test\<close> reads its argument
  as a string; \<open>query.length\<close> throws on \<open>null\<close> and is \<open>undefined\<close> on the other values that
  are neither strings nor arrays.
\<close>

definition validateCustomQuery :: "json \<Rightarrow> js_error option" where
  "validateCustomQuery query =
    (if list_ex (\<lambda>pattern. test pattern (ToString query)) forbiddenPatterns
     then Some (Error (js ''Query contains forbidden operations''))
     else if query = JNull then
       Some (TypeError (js ''Cannot read properties of null (reading '' @ [0x27] @ js ''length'' @ [0x27] @ js '')''))
     else (case js_length query of
             Some queryLength \<Rightarrow>
               if 10000 < queryLength
               then Some (Error (js ''Query too complex. Maximum length exceeded.''))
               else None
           | None \<Rightarrow> None))"


section \<open>The world outside the handlers\<close>

text \<open>
  The clock, the result bucket and the relational store are the environment.  Each
  \<open>Date.now()\<close> or \<open>new Date()\<close> takes the next reading of the clock (milliseconds);
  \<open>iso\<close> is \<open>Date.prototype.toISOString\<close>.  \<open>s3_objects\<close> is the content of the result
  bucket by key.  \<open>pool_query\<close> is the answer of the store to a statement sent with
  \<open>pool.query\<close> (the \<open>rows\<close> of the result, or the error thrown), \<open>pool_rowCount\<close> is the
  \<open>rowCount\<close> of that result (a number, or \<open>null\<close> for a statement that counts no rows),
  and \<open>executed\<close> lists the statements sent so, oldest first.  \<open>report\<close> is
  the outcome of a fixed report of \<open>AdvancedQueryService\<close>, by method name and arguments.
  A fault, when present, is thrown by every request to that service.  Logging is left out;
  the error's \<open>stack\<close> property, added only under \<open>NODE_ENV = development\<close>, is too.
\<close>

record world =
  clock :: "nat \<Rightarrow> nat"
  reads :: nat
  iso :: "nat \<Rightarrow> jsstring"
  s3Bucket :: jsstring
  s3_objects :: "jsstring \<Rightarrow> jsstring option"
  s3_fault :: "js_error option"
  pool_fault :: "js_error option"
  pool_query :: "json \<Rightarrow> json option \<Rightarrow> js_error + json list"
  pool_rowCount :: "json \<Rightarrow> json option \<Rightarrow> json"
  executed :: "(json \<times> json option) list"
  report :: "jsstring \<Rightarrow> json list \<Rightarrow> js_error + json"

definition Date_now :: "world \<Rightarrow> nat \<times> world" where
  "Date_now w = (clock w (reads w), w\<lparr>reads := Suc (reads w)\<rparr>)"

definition new_Date_toISOString :: "world \<Rightarrow> jsstring \<times> world" where
  "new_Date_toISOString w = (case Date_now w of (t, w') \<Rightarrow> (iso w t, w'))"

definition PutObject :: "world \<Rightarrow> jsstring \<Rightarrow> jsstring \<Rightarrow> js_error + world" where
  "PutObject w key body =
    (case s3_fault w of
       Some e \<Rightarrow> Inl e
     | None \<Rightarrow> Inr (w\<lparr>s3_objects := (s3_objects w)(key \<mapsto> body)\<rparr>))"

definition GetObject :: "world \<Rightarrow> jsstring \<Rightarrow> js_error + jsstring" where
  "GetObject w key =
    (case s3_fault w of
       Some e \<Rightarrow> Inl e
     | None \<Rightarrow>
        (case s3_objects w key of
           None \<Rightarrow> Inl \<lparr>err_type = js ''NoSuchKey'', err_message = js ''The specified key does not exist.''\<rparr>
         | Some body \<Rightarrow> Inr body))"

text \<open>\<open>(await queryService.init()).query(text, values)\<close>, returning \<open>result.rows\<close>.\<close>

definition query_rows :: "world \<Rightarrow> json \<Rightarrow> json option \<Rightarrow> (js_error + json list) \<times> world" where
  "query_rows w text values =
    (case pool_fault w of
       Some e \<Rightarrow> (Inl e, w)
     | None \<Rightarrow> (pool_query w text values, w\<lparr>executed := executed w @ [(text, values)]\<rparr>))"

section \<open>The analytics service\<close>

record inline_response =
  ir_operation :: "json option"
  ir_operationId :: jsstring
  ir_executionTime :: jsstring
  ir_data :: json
  ir_resultCount :: nat
  ir_timestamp :: jsstring

record large_response =
  lr_operation :: "json option"
  lr_executionTime :: jsstring
  lr_s3Url :: jsstring
  lr_downloadUrl :: jsstring
  lr_recordCount :: "nat option"
  lr_message :: jsstring
  lr_timestamp :: jsstring

record failure_response =
  fr_operation :: "json option"
  fr_operationId :: jsstring
  fr_executionTime :: jsstring
  fr_error :: js_error
  fr_suggestions :: "jsstring list"

datatype response =
    Inline inline_response
  | Large large_response
  | Failure failure_response

text \<open>The object each response is, as \<open>JSON.stringify\<close> sees it.\<close>

fun response_json :: "response \<Rightarrow> json" where
  "response_json (Inline r) =
    JObj (object_literal
      [(js ''success'', Some (JBool True)),
       (js ''operation'', ir_operation r),
       (js ''operationId'', Some (JStr (ir_operationId r))),
       (js ''executionTime'', Some (JStr (ir_executionTime r))),
       (js ''data'', Some (ir_data r)),
       (js ''metadata'', Some (JObj
          [(js ''resultCount'', JNum (int (ir_resultCount r))),
           (js ''timestamp'', JStr (ir_timestamp r)),
           (js ''cacheHit'', JBool False)]))])"
| "response_json (Large r) =
    JObj (object_literal
      [(js ''success'', Some (JBool True)),
       (js ''operation'', lr_operation r),
       (js ''executionTime'', Some (JStr (lr_executionTime r))),
       (js ''largeResult'', Some (JBool True)),
       (js ''s3Url'', Some (JStr (lr_s3Url r))),
       (js ''downloadUrl'', Some (JStr (lr_downloadUrl r))),
       (js ''recordCount'', num_opt (lr_recordCount r)),
       (js ''message'', Some (JStr (lr_message r))),
       (js ''metadata'', Some (JObj (object_literal
          [(js ''resultCount'', num_opt (lr_recordCount r)),
           (js ''timestamp'', Some (JStr (lr_timestamp r))),
           (js ''cacheHit'', Some (JBool False))])))])"
| "response_json (Failure r) =
    JObj (object_literal
      [(js ''success'', Some (JBool False)),
       (js ''operation'', fr_operation r),
       (js ''operationId'', Some (JStr (fr_operationId r))),
       (js ''executionTime'', Some (JStr (fr_executionTime r))),
       (js ''error'', Some (JObj
          [(js ''message'', JStr (err_message (fr_error r))),
           (js ''type'', JStr (err_type (fr_error r)))])),
       (js ''suggestions'', Some (JArr (map JStr (fr_suggestions r))))])"

definition executionTime_ms :: "nat \<Rightarrow> nat \<Rightarrow> jsstring" where
  "executionTime_ms t startTime = show_int (int t - int startTime) @ js ''ms''"

text \<open>
  The two constants of \<open>saveLargeResultToS3\<close>: the storage key, from the operation and the
  reading of \<open>Date.now()\<close>, and the stored object.
\<close>

definition s3Key :: "json option \<Rightarrow> nat \<Rightarrow> jsstring" where
  "s3Key operation now = js ''results/'' @ template operation @ js ''-'' @ decimal now @ js ''.json''"

definition resultData :: "json option \<Rightarrow> json \<Rightarrow> jsstring \<Rightarrow> json" where
  "resultData operation result generatedAt =
    JObj (object_literal
      [(js ''operation'', operation),
       (js ''data'', Some result),
       (js ''generatedAt'', Some (JStr generatedAt)),
       (js ''recordCount'', num_opt (js_length result))])"

definition saveLargeResultToS3 ::
  "world \<Rightarrow> json \<Rightarrow> json option \<Rightarrow> nat \<Rightarrow> (js_error + response) \<times> world" where
  "saveLargeResultToS3 w result operation startTime =
    (case Date_now w of (now, w1) \<Rightarrow>
     case new_Date_toISOString w1 of (generatedAt, w2) \<Rightarrow>
     (case PutObject w2 (s3Key operation now)
             (JSON_stringify_pretty (resultData operation result generatedAt)) of
        Inl e \<Rightarrow> (Inl e, w2)
      | Inr w3 \<Rightarrow>
         (case Date_now w3 of (t2, w4) \<Rightarrow>
          case new_Date_toISOString w4 of (timestamp, w5) \<Rightarrow>
            (Inr (Large
               \<lparr>lr_operation = operation,
                lr_executionTime = executionTime_ms t2 startTime,
                lr_s3Url = js ''s3://'' @ s3Bucket w @ js ''/'' @ s3Key operation now,
                lr_downloadUrl = js ''/download/'' @ last_segment [] (s3Key operation now),
                lr_recordCount = js_length result,
                lr_message = js ''Large result saved to S3 for download'',
                lr_timestamp = timestamp\<rparr>), w5))))"

text \<open>\<open>parameters.name\<close>, where an absent \<open>parameters\<close> argument defaults to \<open>{}\<close>.\<close>

definition get_param :: "json option \<Rightarrow> jsstring \<Rightarrow> js_error + json option" where
  "get_param parameters name =
    (case parameters of None \<Rightarrow> Inr None | Some p \<Rightarrow> get_prop p name)"

text \<open>\<open>v || d\<close>.\<close>

definition or_default :: "json option \<Rightarrow> json \<Rightarrow> json" where
  "or_default v d = (case v of None \<Rightarrow> d | Some x \<Rightarrow> if truthy x then x else d)"

definition executeCustomComplexQuery ::
  "world \<Rightarrow> json \<Rightarrow> json option \<Rightarrow> (js_error + json) \<times> world" where
  "executeCustomComplexQuery w query params =
    (case validateCustomQuery query of
       Some e \<Rightarrow> (Inl e, w)
     | None \<Rightarrow>
        (case query_rows w query (Some (case params of None \<Rightarrow> JArr [] | Some p \<Rightarrow> p)) of
           (Inl e, w') \<Rightarrow> (Inl e, w')
         | (Inr rows, w') \<Rightarrow> (Inr (JArr rows), w')))"

text \<open>A report called with one, or with two, defaulted parameters.\<close>

definition report1 ::
  "world \<Rightarrow> jsstring \<Rightarrow> json option \<Rightarrow> jsstring \<Rightarrow> string \<Rightarrow> js_error + json" where
  "report1 w method parameters name dflt =
    (case get_param parameters name of
       Inl e \<Rightarrow> Inl e
     | Inr v \<Rightarrow> report w method [or_default v (JStr (js dflt))])"

definition report2 ::
  "world \<Rightarrow> jsstring \<Rightarrow> json option \<Rightarrow> string \<Rightarrow> string \<Rightarrow> js_error + json" where
  "report2 w method parameters dflt_metric dflt_group =
    (case get_param parameters (js ''metric'') of
       Inl e \<Rightarrow> Inl e
     | Inr m \<Rightarrow>
        (case get_param parameters (js ''group_by'') of
           Inl e \<Rightarrow> Inl e
         | Inr g \<Rightarrow>
            report w method [or_default m (JStr (js dflt_metric)), or_default g (JStr (js dflt_group))]))"

text \<open>
  The \<open>switch\<close> of \<open>executeAnalyticsOperation\<close>: the value assigned to \<open>result\<close>, or the error
  thrown.  A case label matches by strict equality with a string.
\<close>

definition dispatch :: "world \<Rightarrow> json option \<Rightarrow> json option \<Rightarrow> (js_error + json) \<times> world" where
  "dispatch w operation parameters =
    (if operation = Some (JStr (js ''database_info'')) then
       (report w (js ''getDatabaseInfo'') [], w)
     else if operation = Some (JStr (js ''multi_dimensional_analytics'')) then
       (report1 w (js ''getMultiDimensionalAnalytics'') parameters (js ''timeframe'') ''3 months'', w)
     else if operation = Some (JStr (js ''relationship_network'')) then
       (case get_param parameters (js ''rootEntityId'') of
          Inl e \<Rightarrow> (Inl e, w)
        | Inr v \<Rightarrow>
           (report w (js ''getEntityRelationshipNetwork'') [case v of None \<Rightarrow> JNull | Some x \<Rightarrow> x], w))
     else if operation = Some (JStr (js ''time_series_patterns'')) then
       (report1 w (js ''getTimeSeriesPatterns'') parameters (js ''analysisPeriod'') ''6 months'', w)
     else if operation = Some (JStr (js ''data_integrity_analysis'')) then
       (report w (js ''getDataIntegrityAnalysis'') [], w)
     else if operation = Some (JStr (js ''customer_analysis'')) then
       (report2 w (js ''getCustomerAnalysis'') parameters ''lifetime_value'' ''industry'', w)
     else if operation = Some (JStr (js ''revenue_analysis'')) then
       (report2 w (js ''getRevenueAnalysis'') parameters ''annual_revenue'' ''region'', w)
     else if operation = Some (JStr (js ''count_analysis'')) then
       (report2 w (js ''getCountAnalysis'') parameters ''customer_count'' ''industry'', w)
     else if operation = Some (JStr (js ''custom_complex_query'')) then
       (case get_param parameters (js ''query'') of
          Inl e \<Rightarrow> (Inl e, w)
        | Inr None \<Rightarrow> (Inl (Error (js ''Custom query is required for this operation'')), w)
        | Inr (Some query) \<Rightarrow>
           if \<not> truthy query then
             (Inl (Error (js ''Custom query is required for this operation'')), w)
           else
             (case get_param parameters (js ''params'') of
                Inl e \<Rightarrow> (Inl e, w)
              | Inr params \<Rightarrow> executeCustomComplexQuery w query params))
     else if operation = Some (JStr (js ''simple_demo'')) then
       (report w (js ''getSimpleDemo'') [], w)
     else (Inl (Error (js ''Unknown analytics operation: '' @ template operation)), w))"

definition getErrorSuggestions :: "js_error \<Rightarrow> json option \<Rightarrow> jsstring list" where
  "getErrorSuggestions error operation =
    (let suggestions =
       (if includes_js (err_message error) (js ''timeout'')
        then [js ''Try reducing the analysis timeframe'', js ''Consider using smaller data subsets'']
        else [])
       @ (if includes_js (err_message error) (js ''memory'')
          then [js ''Try using more specific filters'', js ''Consider implementing pagination'']
          else [])
       @ (if includes_js (err_message error) (js ''syntax'')
          then [js ''Check query syntax and parameter types'']
          else [])
       @ (if operation = Some (JStr (js ''relationship_network''))
          then [js ''Try specifying a rootEntityId to limit the graph traversal'']
          else if operation = Some (JStr (js ''multi_dimensional_analytics''))
          then [js ''Try using a shorter timeframe for initial analysis'']
          else [])
     in if 0 < length suggestions then suggestions else [js ''Check parameters and try again''])"

text \<open>
  The body of the \<open>try\<close> block after the \<open>switch\<close>: the size test and the two successful
  returns.  \<open>result.length\<close> throws on \<open>null\<close>.
\<close>

definition route ::
  "world \<Rightarrow> json option \<Rightarrow> jsstring \<Rightarrow> nat \<Rightarrow> json \<Rightarrow> (js_error + response) \<times> world" where
  "route w operation operationId startTime result =
    (if result = JNull then
       (Inl (TypeError (js ''Cannot read properties of null (reading '' @ [0x27] @ js ''length'' @ [0x27] @ js '')'')), w)
     else if (case js_length result of None \<Rightarrow> False | Some n \<Rightarrow> 1000 < n)
             \<or> 5000000 < length (JSON_stringify result) then
       saveLargeResultToS3 w result operation startTime
     else
       (case Date_now w of (t, w1) \<Rightarrow>
        case new_Date_toISOString w1 of (timestamp, w2) \<Rightarrow>
          (Inr (Inline
             \<lparr>ir_operation = operation,
              ir_operationId = operationId,
              ir_executionTime = executionTime_ms t startTime,
              ir_data = result,
              ir_resultCount = (case js_length result of None \<Rightarrow> 0 | Some n \<Rightarrow> n),
              ir_timestamp = timestamp\<rparr>), w2)))"

definition executeAnalyticsOperation :: "world \<Rightarrow> json option \<Rightarrow> json option \<Rightarrow> response \<times> world" where
  "executeAnalyticsOperation w operation parameters =
    (case Date_now w of (startTime, w0) \<Rightarrow>
     let operationId = template operation @ js ''_'' @ decimal startTime;
         outcome =
           (case dispatch w0 operation parameters of
              (Inl e, w1) \<Rightarrow> (Inl e, w1)
            | (Inr result, w1) \<Rightarrow> route w1 operation operationId startTime result)
     in
     (case outcome of
        (Inr r, w2) \<Rightarrow> (r, w2)
      | (Inl error, w2) \<Rightarrow>
         (case Date_now w2 of (t, w3) \<Rightarrow>
           (Failure
              \<lparr>fr_operation = operation,
               fr_operationId = operationId,
               fr_executionTime = executionTime_ms t startTime,
               fr_error = error,
               fr_suggestions = getErrorSuggestions error operation\<rparr>, w3))))"


section \<open>Serialized size in bytes\<close>

text \<open>
  The number of bytes of a string in UTF-8: a surrogate pair takes four bytes, an
  unpaired surrogate the three bytes of the replacement character.
\<close>

definition unit_bytes :: "cu \<Rightarrow> nat" where
  "unit_bytes c = (if c < 0x80 then 1 else if c < 0x800 then 2 else 3)"

fun utf8_length :: "jsstring \<Rightarrow> nat" where
  "utf8_length [] = 0"
| "utf8_length [c] = unit_bytes c"
| "utf8_length (c # d # cs) =
    (if is_lead c \<and> is_trail d then 4 + utf8_length cs
     else unit_bytes c + utf8_length (d # cs))"

section \<open>Example worlds\<close>

text \<open>
  Worlds used to run the handlers on concrete requests: the clock reads 17, 18, ..., the
  bucket is empty, the store answers one row to any statement, and every fixed report
  answers the given result.
\<close>

definition world_reporting :: "json \<Rightarrow> world" where
  "world_reporting result =
    \<lparr>clock = (\<lambda>n. 17 + n), reads = 0, iso = (\<lambda>t. decimal t), s3Bucket = js ''bucket'',
     s3_objects = Map.empty, s3_fault = None, pool_fault = None,
     pool_query = (\<lambda>q v. Inr [JObj [(js ''n'', JNum 1)]]),
     pool_rowCount = (\<lambda>q v. JNum 1),
     executed = [],
     report = (\<lambda>m args. Inr result)\<rparr>"

definition demo_world :: world where
  "demo_world = world_reporting (JArr (replicate 3 (JObj [(js ''k'', JNum 7)])))"

text \<open>A string of \<open>n\<close> letters e-acute (U+00E9), two bytes each in UTF-8.\<close>

definition accents :: "nat \<Rightarrow> jsstring" where
  "accents n = replicate n 0xE9"

text \<open>One row whose only field holds \<open>n\<close> such letters.\<close>

definition accented_rows :: "nat \<Rightarrow> json list" where
  "accented_rows n = [JObj [(js ''name'', JStr (accents n))]]"

section \<open>The HTTP surface of the analytics Lambda\<close>

record http_response =
  statusCode :: nat
  headers :: "(jsstring \<times> jsstring) list"
  body :: jsstring

record api_event =
  httpMethod :: jsstring
  path :: jsstring
  queryStringParameters :: "(jsstring \<times> jsstring) list option"
  requestBody :: "jsstring option"
  pathParameters :: "(jsstring \<times> jsstring) list option"

text \<open>\<open>event.queryStringParameters?.name\<close> and \<open>event.pathParameters?.name\<close>.\<close>

definition optional_chain :: "(jsstring \<times> jsstring) list option \<Rightarrow> jsstring \<Rightarrow> jsstring option" where
  "optional_chain ps name = (case ps of None \<Rightarrow> None | Some kvs \<Rightarrow> map_of kvs name)"

text \<open>
  \<open>JSON.parse\<close> as the handlers call it.  The text of the \<open>SyntaxError\<close> message depends on
  the engine and on the input; one text stands for all of them.
\<close>

definition JSON_parse_throwing :: "jsstring \<Rightarrow> js_error + json" where
  "JSON_parse_throwing s =
    (case JSON_parse s of
       None \<Rightarrow> Inl (SyntaxError (js ''Unexpected token in JSON''))
     | Some v \<Rightarrow> Inr v)"

definition download_headers :: "(jsstring \<times> jsstring) list" where
  "download_headers =
    [(js ''Content-Type'', js ''application/json''), (js ''Access-Control-Allow-Origin'', js ''*'')]"

text \<open>The \<open>try\<close> block of \<open>handleS3Download\<close>: the response, or the error thrown.\<close>

definition download_try :: "world \<Rightarrow> api_event \<Rightarrow> js_error + http_response" where
  "download_try w event =
    (case optional_chain (pathParameters event) (js ''key'') of
       None \<Rightarrow> Inl (Error (js ''Download key is required''))
     | Some key \<Rightarrow>
        if key = [] then Inl (Error (js ''Download key is required''))
        else
          (case GetObject w (js ''results/'' @ key) of
             Inl e \<Rightarrow> Inl e
           | Inr text \<Rightarrow>
              (case JSON_parse_throwing text of
                 Inl e \<Rightarrow> Inl e
               | Inr stored \<Rightarrow>
                  (case (get_prop stored (js ''data''), get_prop stored (js ''operation''),
                         get_prop stored (js ''generatedAt''), get_prop stored (js ''recordCount'')) of
                     (Inr data, Inr operation, Inr generatedAt, Inr recordCount) \<Rightarrow>
                       Inr \<lparr>statusCode = 200,
                            headers = download_headers,
                            body = JSON_stringify (JObj (object_literal
                              [(js ''success'', Some (JBool True)),
                               (js ''data'', data),
                               (js ''metadata'', Some (JObj (object_literal
                                  [(js ''operation'', operation),
                                   (js ''generatedAt'', generatedAt),
                                   (js ''recordCount'', recordCount),
                                   (js ''source'', Some (JStr (js ''s3'')))])))]))\<rparr>
                   | (Inl e, _) \<Rightarrow> Inl e
                   | (_, Inl e, _) \<Rightarrow> Inl e
                   | (_, _, Inl e, _) \<Rightarrow> Inl e
                   | (_, _, _, Inl e) \<Rightarrow> Inl e))))"

definition handleS3Download :: "world \<Rightarrow> api_event \<Rightarrow> http_response" where
  "handleS3Download w event =
    (case download_try w event of
       Inr response \<Rightarrow> response
     | Inl error \<Rightarrow>
        \<lparr>statusCode = 404,
         headers = download_headers,
         body = JSON_stringify (JObj
           [(js ''success'', JBool False),
            (js ''error'', JStr (js ''Result not found or expired'')),
            (js ''message'', JStr (err_message error))])\<rparr>)"

definition unhealthy :: "world \<Rightarrow> js_error \<Rightarrow> json \<times> world" where
  "unhealthy w error =
    (case new_Date_toISOString w of (timestamp, w') \<Rightarrow>
      (JObj [(js ''status'', JStr (js ''unhealthy'')),
             (js ''database'', JStr (js ''disconnected'')),
             (js ''timestamp'', JStr timestamp),
             (js ''error'', JStr (err_message error))], w'))"

definition getServiceHealth :: "world \<Rightarrow> json \<times> world" where
  "getServiceHealth w =
    (case query_rows w (JStr (js ''SELECT 1 as status, NOW() as timestamp'')) None of
       (Inl e, w1) \<Rightarrow> unhealthy w1 e
     | (Inr rows, w1) \<Rightarrow>
        (case new_Date_toISOString w1 of (timestamp, w2) \<Rightarrow>
          (case rows of
             [] \<Rightarrow> unhealthy w2 (TypeError (js ''Cannot read properties of undefined (reading ''
                                              @ [0x27] @ js ''timestamp'' @ [0x27] @ js '')''))
           | row # _ \<Rightarrow>
              (case get_prop row (js ''timestamp'') of
                 Inl e \<Rightarrow> unhealthy w2 e
               | Inr database_timestamp \<Rightarrow>
                  (JObj [(js ''status'', JStr (js ''healthy'')),
                         (js ''database'', JStr (js ''connected'')),
                         (js ''timestamp'', JStr timestamp),
                         (js ''details'', JObj (object_literal
                            [(js ''database_timestamp'', database_timestamp),
                             (js ''service'', Some (JStr (js ''Advanced Analytics Service''))),
                             (js ''version'', Some (JStr (js ''1.0.0'')))]))], w2)))))"

definition api_headers :: "(jsstring \<times> jsstring) list" where
  "api_headers =
    [(js ''Content-Type'', js ''application/json''),
     (js ''Access-Control-Allow-Origin'', js ''*''),
     (js ''Access-Control-Allow-Methods'', js ''GET, POST, OPTIONS''),
     (js ''Access-Control-Allow-Headers'', js ''Content-Type, Authorization''),
     (js ''X-Content-Type-Options'', js ''nosniff''),
     (js ''X-Frame-Options'', js ''DENY'')]"

definition ok_response :: "json \<Rightarrow> http_response" where
  "ok_response result = \<lparr>statusCode = 200, headers = api_headers, body = JSON_stringify result\<rparr>"

definition api_error_response :: "js_error \<Rightarrow> http_response" where
  "api_error_response error =
    \<lparr>statusCode = 400, headers = api_headers,
     body = JSON_stringify (JObj
       [(js ''success'', JBool False),
        (js ''error'', JStr (err_message error)),
        (js ''type'', JStr (js ''API_ERROR''))])\<rparr>"

definition not_found_response :: http_response where
  "not_found_response =
    \<lparr>statusCode = 404, headers = api_headers,
     body = JSON_stringify (JObj
       [(js ''success'', JBool False),
        (js ''error'', JStr (js ''Endpoint not found'')),
        (js ''availableEndpoints'', JArr
           [JStr (js ''GET /health''),
            JStr (js ''POST /analytics''),
            JStr (js ''GET /analytics?operation=<operation>&parameters=<json>''),
            JStr (js ''GET /download/{key}'')])])\<rparr>"

definition handleApiGatewayEvent :: "world \<Rightarrow> api_event \<Rightarrow> http_response \<times> world" where
  "handleApiGatewayEvent w event =
    (if httpMethod event = js ''OPTIONS'' then
       (\<lparr>statusCode = 200, headers = api_headers, body = []\<rparr>, w)
     else if httpMethod event = js ''GET'' \<and> includes_js (path event) (js ''/download/'') then
       (handleS3Download w event, w)
     else if httpMethod event = js ''GET'' \<and> includes_js (path event) (js ''/health'') then
       (case getServiceHealth w of (result, w') \<Rightarrow> (ok_response result, w'))
     else if httpMethod event = js ''POST'' \<and> includes_js (path event) (js ''/analytics'') then
       (case JSON_parse_throwing
               (case requestBody event of None \<Rightarrow> js ''{}'' | Some b \<Rightarrow> if b = [] then js ''{}'' else b) of
          Inl e \<Rightarrow> (api_error_response e, w)
        | Inr parsed \<Rightarrow>
           (case (get_prop parsed (js ''operation''), get_prop parsed (js ''parameters'')) of
              (Inr operation, Inr parameters) \<Rightarrow>
                (case executeAnalyticsOperation w operation parameters of
                   (result, w') \<Rightarrow> (ok_response (response_json result), w'))
            | (Inl e, _) \<Rightarrow> (api_error_response e, w)
            | (_, Inl e) \<Rightarrow> (api_error_response e, w)))
     else if httpMethod event = js ''GET'' \<and> includes_js (path event) (js ''/analytics'') then
       (case (case optional_chain (queryStringParameters event) (js ''parameters'') of
                None \<Rightarrow> Inr (JObj [])
              | Some p \<Rightarrow> if p = [] then Inr (JObj []) else JSON_parse_throwing p) of
          Inl e \<Rightarrow> (api_error_response e, w)
        | Inr parameters \<Rightarrow>
           (case executeAnalyticsOperation w
                   (map_option JStr (optional_chain (queryStringParameters event) (js ''operation'')))
                   (Some parameters) of
              (result, w') \<Rightarrow> (ok_response (response_json result), w')))
     else (not_found_response, w))"

text \<open>\<open>handleDirectInvocation\<close>: the result object, with \<open>requestId\<close> added when given.\<close>

definition handleDirectInvocation ::
  "world \<Rightarrow> json option \<Rightarrow> json option \<Rightarrow> json option \<Rightarrow> (js_error + json) \<times> world" where
  "handleDirectInvocation w operation parameters requestId =
    (if (case operation of None \<Rightarrow> True | Some v \<Rightarrow> \<not> truthy v) then
       (Inl (Error (js ''Operation parameter is required for direct invocation'')), w)
     else
       (case executeAnalyticsOperation w operation parameters of
          (result, w') \<Rightarrow>
            (Inr (case response_json result of
                    JObj kvs \<Rightarrow>
                      (case requestId of
                         None \<Rightarrow> JObj kvs
                       | Some v \<Rightarrow> if truthy v then JObj (set_prop (js ''requestId'') v kvs) else JObj kvs)
                  | v \<Rightarrow> v), w')))"

text \<open>The case labels of the \<open>switch\<close>, and two requests naming an operation outside them.\<close>

definition registered_operations :: "jsstring list" where
  "registered_operations =
    [js ''database_info'', js ''multi_dimensional_analytics'', js ''relationship_network'',
     js ''time_series_patterns'', js ''data_integrity_analysis'', js ''customer_analysis'',
     js ''revenue_analysis'', js ''count_analysis'', js ''custom_complex_query'', js ''simple_demo'']"

definition get_invalid_operation :: api_event where
  "get_invalid_operation =
    \<lparr>httpMethod = js ''GET'', path = js ''/analytics'',
     queryStringParameters = Some [(js ''operation'', js ''invalid_operation_x'')],
     requestBody = None, pathParameters = None\<rparr>"

definition post_invalid_operation :: api_event where
  "post_invalid_operation =
    \<lparr>httpMethod = js ''POST'', path = js ''/analytics'', queryStringParameters = None,
     requestBody = Some (js ''{\"operation\":\"invalid_operation_x\"}''), pathParameters = None\<rparr>"

section \<open>What the sandbox patterns describe\<close>

text \<open>
  \<open>ci_equal s kw\<close>: the text \<open>s\<close> is the keyword \<open>kw\<close> up to the case of ASCII letters.
  \<open>mentions_forbidden q\<close>: somewhere in \<open>q\<close>, one of DROP, TRUNCATE, CREATE, ALTER, GRANT,
  REVOKE is directly followed by a whitespace character; or DELETE, whitespace, FROM; or
  INSERT, whitespace, INTO; or UPDATE, whitespace, word characters, whitespace, SET.
\<close>

definition ci_equal :: "jsstring \<Rightarrow> string \<Rightarrow> bool" where
  "ci_equal s kw = list_all2 (\<lambda>c k. upper c = upper (of_char k)) s kw"

definition blank :: "jsstring \<Rightarrow> bool" where
  "blank ws = (ws \<noteq> [] \<and> list_all is_space ws)"

definition mentions_forbidden :: "jsstring \<Rightarrow> bool" where
  "mentions_forbidden q =
    ((\<exists>pre kw sp post. q = pre @ kw @ sp # post \<and> is_space sp
         \<and> (ci_equal kw ''DROP'' \<or> ci_equal kw ''TRUNCATE'' \<or> ci_equal kw ''CREATE''
              \<or> ci_equal kw ''ALTER'' \<or> ci_equal kw ''GRANT'' \<or> ci_equal kw ''REVOKE''))
     \<or> (\<exists>pre k1 ws k2 post. q = pre @ k1 @ ws @ k2 @ post \<and> blank ws
         \<and> (ci_equal k1 ''DELETE'' \<and> ci_equal k2 ''FROM'' \<or> ci_equal k1 ''INSERT'' \<and> ci_equal k2 ''INTO''))
     \<or> (\<exists>pre k1 ws1 wd ws2 k2 post. q = pre @ k1 @ ws1 @ wd @ ws2 @ k2 @ post
         \<and> ci_equal k1 ''UPDATE'' \<and> blank ws1 \<and> wd \<noteq> [] \<and> list_all is_word wd \<and> blank ws2
         \<and> ci_equal k2 ''SET''))"

text \<open>The words matched by a pattern, read off its items.\<close>

fun lang :: "item list \<Rightarrow> jsstring \<Rightarrow> bool" where
  "lang [] s = (s = [])"
| "lang (One a # r) s = (\<exists>c t. s = c # t \<and> atom_match a c \<and> lang r t)"
| "lang (Many1 a # r) s = (\<exists>u t. s = u @ t \<and> u \<noteq> [] \<and> list_all (atom_match a) u \<and> lang r t)"

text \<open>Two requests for \<open>custom_complex_query\<close>.\<close>

definition custom_query_parameters :: "string \<Rightarrow> json option" where
  "custom_query_parameters q = Some (JObj [(js ''query'', JStr (js q))])"

section \<open>The job workflow\<close>

text \<open>
  The state machine that \<open>StepFunctionsStack\<close> declares, by the construct id of each step
  and the literal fields of its Lambda payload (the fields read from the execution state
  are left out).  The \<open>Choice\<close> takes its first chain for a result of more than 1000 rows.
\<close>

datatype sfn_step =
    LambdaInvoke jsstring "(jsstring \<times> jsstring) list"
  | Pass jsstring

datatype sfn_chain =
    Next sfn_step sfn_chain
  | Choice sfn_chain sfn_chain
  | Succeed

definition analytics_job_state_machine :: sfn_chain where
  "analytics_job_state_machine =
    Next (LambdaInvoke (js ''UpdateJobToRunning'')
            [(js ''action'', js ''update_status''), (js ''status'', js ''running'')])
   (Next (LambdaInvoke (js ''ExecuteAnalytics'') [])
   (Choice
     (Next (LambdaInvoke (js ''SaveLargeResult'') [(js ''action'', js ''save_large_result'')])
     (Next (LambdaInvoke (js ''UpdateJobToCompletedLarge'')
              [(js ''action'', js ''update_status''), (js ''status'', js ''completed'')])
     (Next (Pass (js ''NoNotification'')) Succeed)))
     (Next (LambdaInvoke (js ''UpdateJobToCompletedSmall'')
              [(js ''action'', js ''update_status''), (js ''status'', js ''completed'')])
     (Next (Pass (js ''NoNotification'')) Succeed))))"

text \<open>The statuses that the \<open>update_status\<close> steps of a chain ask the job service to write.\<close>

fun step_status :: "sfn_step \<Rightarrow> jsstring list" where
  "step_status (LambdaInvoke name payload) =
    (if map_of payload (js ''action'') = Some (js ''update_status'')
     then (case map_of payload (js ''status'') of None \<Rightarrow> [] | Some s \<Rightarrow> [s])
     else [])"
| "step_status (Pass name) = []"

fun statuses_written :: "sfn_chain \<Rightarrow> jsstring list" where
  "statuses_written (Next s c) = step_status s @ statuses_written c"
| "statuses_written (Choice a b) = statuses_written a @ statuses_written b"
| "statuses_written Succeed = []"

section \<open>The data processor's custom query\<close>

text \<open>
  The first branch of the data processor's handler, taken when \<open>event.query\<close> is truthy:
  the statement is sent with \<open>pool.query(event.query)\<close>; a thrown error is answered with
  status 500.  \<open>count\<close> is \<open>result.rowCount\<close>.
\<close>

definition handler_custom_query :: "world \<Rightarrow> json \<Rightarrow> http_response \<times> world" where
  "handler_custom_query w query =
    (case query_rows w query None of
       (Inl error, w') \<Rightarrow>
         (\<lparr>statusCode = 500, headers = [],
           body = JSON_stringify (JObj
             [(js ''success'', JBool False), (js ''error'', JStr (err_message error))])\<rparr>, w')
     | (Inr rows, w') \<Rightarrow>
         (\<lparr>statusCode = 200, headers = [],
           body = JSON_stringify (JObj
             [(js ''rows'', JArr rows),
              (js ''count'', pool_rowCount w query None),
              (js ''query'', query)])\<rparr>, w'))"

section \<open>The job service\<close>

text \<open>
  DynamoDB attribute values, and \<open>marshall\<close> of \<open>@aws-sdk/util-dynamodb\<close> on JSON values
  with its default options.  A number above \<open>Number.MAX_SAFE_INTEGER\<close> or below
  \<open>Number.MIN_SAFE_INTEGER\<close> makes \<open>marshall\<close> throw.
\<close>

datatype attr =
    AttrS jsstring
  | AttrN jsstring
  | AttrBOOL bool
  | AttrNULL
  | AttrL "attr list"
  | AttrM "(jsstring \<times> attr) list"

definition MAX_SAFE_INTEGER :: int where
  "MAX_SAFE_INTEGER = 9007199254740991"

definition convertToNumberAttr :: "int \<Rightarrow> js_error + attr" where
  "convertToNumberAttr num =
    (if MAX_SAFE_INTEGER < num then
       Inl (Error (js ''Number '' @ show_int num @ js '' is greater than Number.MAX_SAFE_INTEGER. Use BigInt.''))
     else if num < - MAX_SAFE_INTEGER then
       Inl (Error (js ''Number '' @ show_int num @ js '' is lesser than Number.MIN_SAFE_INTEGER. Use BigInt.''))
     else Inr (AttrN (show_int num)))"

fun convertToAttr :: "json \<Rightarrow> js_error + attr"
and convertToAttrs :: "json list \<Rightarrow> js_error + attr list"
and marshall :: "(jsstring \<times> json) list \<Rightarrow> js_error + (jsstring \<times> attr) list" where
  "convertToAttr JNull = Inr AttrNULL"
| "convertToAttr (JBool b) = Inr (AttrBOOL b)"
| "convertToAttr (JNum n) = convertToNumberAttr n"
| "convertToAttr (JStr s) = Inr (AttrS s)"
| "convertToAttr (JArr xs) =
    (case convertToAttrs xs of Inl e \<Rightarrow> Inl e | Inr elements \<Rightarrow> Inr (AttrL elements))"
| "convertToAttr (JObj kvs) =
    (case marshall kvs of Inl e \<Rightarrow> Inl e | Inr members \<Rightarrow> Inr (AttrM members))"
| "convertToAttrs [] = Inr []"
| "convertToAttrs (x # xs) =
    (case convertToAttr x of
       Inl e \<Rightarrow> Inl e
     | Inr a \<Rightarrow> (case convertToAttrs xs of Inl e \<Rightarrow> Inl e | Inr elements \<Rightarrow> Inr (a # elements)))"
| "marshall [] = Inr []"
| "marshall ((k, v) # kvs) =
    (case convertToAttr v of
       Inl e \<Rightarrow> Inl e
     | Inr a \<Rightarrow> (case marshall kvs of Inl e \<Rightarrow> Inl e | Inr members \<Rightarrow> Inr ((k, a) # members)))"

text \<open>The input of an \<open>UpdateItemCommand\<close>; a property the code does not set is \<open>None\<close>.\<close>

record update_item =
  TableName :: jsstring
  Key :: "(jsstring \<times> attr) list"
  UpdateExpression :: jsstring
  ExpressionAttributeNames :: "(jsstring \<times> jsstring) list"
  ExpressionAttributeValues :: "(jsstring \<times> attr) list"
  ConditionExpression :: "jsstring option"

text \<open>
  \<open>updateJobStatus\<close>, up to the command it hands to \<open>dynamoDb.send\<close>: the result is that
  command, or the error \<open>marshall\<close> throws before anything is sent.  What the service
  makes of the command is not part of the function.  \<open>additionalData\<close> is given by its own
  properties, in order; a property named \<open>status\<close> overwrites the binding of \<open>:status\<close>.
\<close>

definition updateExpressions :: "(jsstring \<times> json) list \<Rightarrow> jsstring list" where
  "updateExpressions additionalData =
    js ''SET #status = :status'' # map (\<lambda>(key, v). key @ js '' = :'' @ key) additionalData"

definition expressionAttributes :: "jsstring \<Rightarrow> (jsstring \<times> json) list \<Rightarrow> (jsstring \<times> json) list" where
  "expressionAttributes status additionalData =
    foldl (\<lambda>acc (key, v). set_prop (js '':'' @ key) v acc)
      [(js '':status'', JObj [(js ''S'', JStr status)])] additionalData"

definition updateJobStatus ::
  "jsstring \<Rightarrow> jsstring \<Rightarrow> jsstring \<Rightarrow> (jsstring \<times> json) list \<Rightarrow> js_error + update_item" where
  "updateJobStatus tableName jobId status additionalData =
    (case marshall [(js ''PK'', JStr (js ''JOB#'' @ jobId)), (js ''SK'', JStr (js ''METADATA''))] of
       Inl e \<Rightarrow> Inl e
     | Inr key \<Rightarrow>
        (case marshall (expressionAttributes status additionalData) of
           Inl e \<Rightarrow> Inl e
         | Inr bound \<Rightarrow>
            Inr \<lparr>TableName = tableName,
                 Key = key,
                 UpdateExpression = js ''SET '' @ join (js '', '') (updateExpressions additionalData),
                 ExpressionAttributeNames = [(js ''#status'', js ''status'')],
                 ExpressionAttributeValues = bound,
                 ConditionExpression = None\<rparr>))"

text \<open>A world whose clock stands still at 17: every reading falls in the same millisecond.\<close>

definition frozen_world :: world where
  "frozen_world = demo_world\<lparr>clock := (\<lambda>n. 17)\<rparr>"

section \<open>JSON values that are read back\<close>

text \<open>
  The JSON values that stand for a JavaScript value exactly: every number is a safe
  integer, which \<open>JSON.stringify\<close> prints digit by digit; an array has fewer than
  \<open>2\<^sup>3\<^sup>2\<close> elements; no object has two properties of one name; and no property name is
  a decimal numeral, which JavaScript would list before the other names.
\<close>

definition integer_name :: "jsstring \<Rightarrow> bool" where
  "integer_name k = (k \<noteq> [] \<and> list_all is_digit k \<and> (k = [0x30] \<or> hd k \<noteq> 0x30))"

fun wf_json :: "json \<Rightarrow> bool"
and wf_elements :: "json list \<Rightarrow> bool"
and wf_members :: "(jsstring \<times> json) list \<Rightarrow> bool" where
  "wf_json (JArr xs) = (length xs < 4294967296 \<and> wf_elements xs)"
| "wf_json (JObj kvs) = (distinct (map fst kvs) \<and> wf_members kvs)"
| "wf_json (JNum n) = (- MAX_SAFE_INTEGER \<le> n \<and> n \<le> MAX_SAFE_INTEGER)"
| "wf_json JNull = True"
| "wf_json (JBool b) = True"
| "wf_json (JStr s) = True"
| "wf_elements [] = True"
| "wf_elements (x # xs) = (wf_json x \<and> wf_elements xs)"
| "wf_members [] = True"
| "wf_members ((k, v) # kvs) = (\<not> integer_name k \<and> wf_json v \<and> wf_members kvs)"

text \<open>
  A text is \<open>delimited\<close> when it cannot continue a number; \<open>opener\<close> holds of the characters
  a value can start with; \<open>pad_open\<close> and \<open>pad_close\<close> are the line breaks that
  \<open>JSON.stringify\<close> puts inside the brackets of a non-empty array or object.
\<close>

definition delimited :: "jsstring \<Rightarrow> bool" where
  "delimited rest =
    (case rest of [] \<Rightarrow> True | c # _ \<Rightarrow> \<not> is_digit c \<and> c \<noteq> 0x2E \<and> c \<noteq> 0x65 \<and> c \<noteq> 0x45)"

definition opener :: "cu \<Rightarrow> bool" where
  "opener c = (c = 0x5B \<or> c = 0x7B \<or> c = 0x22 \<or> c = 0x74 \<or> c = 0x66 \<or> c = 0x6E
               \<or> c = 0x2D \<or> is_digit c)"

definition pad_open :: "nat \<Rightarrow> nat \<Rightarrow> jsstring" where
  "pad_open g i = (if g = 0 then [] else newline_indent (i + g))"

definition pad_close :: "nat \<Rightarrow> nat \<Rightarrow> jsstring" where
  "pad_close g i = (if g = 0 then [] else newline_indent i)"

text \<open>The request \<open>GET /download/{key}\<close>.\<close>

definition download_event :: "jsstring \<Rightarrow> api_event" where
  "download_event key =
    \<lparr>httpMethod = js ''GET'', path = js ''/download/'' @ key, queryStringParameters = None,
     requestBody = None, pathParameters = Some [(js ''key'', key)]\<rparr>"

(*THEOREMS*)

section \<open>Failure responses\<close>

lemma getErrorSuggestions_nonempty: "getErrorSuggestions error operation \<noteq> []"
  by (simp add: getErrorSuggestions_def Let_def)

lemma saveLargeResultToS3_not_Failure:
  "saveLargeResultToS3 w result operation startTime \<noteq> (Inr (Failure r), w')"
  by (auto simp: saveLargeResultToS3_def Let_def split: prod.splits sum.splits)

lemma route_not_Failure:
  "route w operation operationId startTime result \<noteq> (Inr (Failure r), w')"
  by (auto simp: route_def saveLargeResultToS3_not_Failure split: prod.splits)

lemma failure_suggestions:
  "executeAnalyticsOperation w operation parameters = (Failure r, w') \<Longrightarrow>
     fr_suggestions r = getErrorSuggestions (fr_error r) operation"
  by (auto simp: executeAnalyticsOperation_def Let_def route_not_Failure
           split: prod.splits sum.splits)

text \<open>
  Claim C10.  \<open>getErrorSuggestions\<close> returns at least one suggestion for every error and
  every operation, so every failure response of \<open>executeAnalyticsOperation\<close> carries a
  non-empty \<open>suggestions\<close> array.
\<close>

theorem suggestions_never_empty:
  "getErrorSuggestions error operation \<noteq> [] \<and>
   (\<forall>r w'. executeAnalyticsOperation w operation parameters = (Failure r, w')
      \<longrightarrow> fr_suggestions r \<noteq> [])"
  using failure_suggestions getErrorSuggestions_nonempty by metis

theorem suggestions_never_empty_witness:
  "\<exists>r w'. executeAnalyticsOperation demo_world (Some (JStr (js ''invalid_operation_x''))) None
             = (Failure r, w')
          \<and> fr_suggestions r = [js ''Check parameters and try again'']
          \<and> fr_suggestions r \<noteq> []"
proof -
  let ?run = "executeAnalyticsOperation demo_world (Some (JStr (js ''invalid_operation_x''))) None"
  have "fst ?run =
    Failure \<lparr>fr_operation = Some (JStr (js ''invalid_operation_x'')),
      fr_operationId = js ''invalid_operation_x_17'', fr_executionTime = js ''1ms'',
      fr_error = Error (js ''Unknown analytics operation: invalid_operation_x''),
      fr_suggestions = [js ''Check parameters and try again'']\<rparr>"
    (is "_ = Failure ?r")
    by code_simp
  then have run: "?run = (Failure ?r, snd ?run)"
    by (metis prod.collapse)
  have "fr_suggestions ?r \<noteq> []"
    using suggestions_never_empty [where w = demo_world and parameters = None
            and operation = "Some (JStr (js ''invalid_operation_x''))"] run
    by blast
  with run show ?thesis
    by (intro exI [of _ ?r] exI [of _ "snd ?run"]) simp
qed

section \<open>Routing by size\<close>

lemma length_le_utf8_length: "length s \<le> utf8_length s"
  by (induction s rule: utf8_length.induct) (auto simp: unit_bytes_def)

lemma ascii_not_lead: "c < 0x80 \<Longrightarrow> \<not> is_lead c"
  by (auto simp: is_lead_def word_le_nat_alt word_less_nat_alt)

lemma utf8_length_ascii: "list_all (\<lambda>c. c < 0x80) s \<Longrightarrow> utf8_length s = length s"
proof (induction s rule: utf8_length.induct)
  case (3 c d cs)
  then have "\<not> is_lead c" by (simp add: ascii_not_lead)
  with 3 show ?case by (simp add: unit_bytes_def)
qed (simp_all add: unit_bytes_def)

lemma utf8_length_append:
  "a = [] \<or> \<not> is_lead (last a) \<Longrightarrow> utf8_length (a @ b) = utf8_length a + utf8_length b"
proof (induction a rule: utf8_length.induct)
  case 1
  then show ?case by simp
next
  case (2 c)
  then show ?case by (cases b) simp_all
next
  case (3 c d cs)
  then show ?case by (cases cs) auto
qed

lemma utf8_length_accents: "utf8_length (accents n) = 2 * n"
proof (induction n)
  case 0
  then show ?case by (simp add: accents_def)
next
  case (Suc n)
  then show ?case by (cases n) (simp_all add: accents_def unit_bytes_def is_lead_def)
qed

lemma quote_units_accents: "quote_units (accents n) = accents n"
proof (induction n)
  case 0
  then show ?case by (simp add: accents_def)
next
  case (Suc n)
  then show ?case by (cases n) (simp_all add: accents_def quote_unit_def is_lead_def is_trail_def)
qed

lemma stringify_elements_replicate:
  "stringify_elements g i (replicate n x) = replicate n (stringify g i x)"
  by (induction n) simp_all

lemma length_join_replicate:
  "length (join sep (replicate (Suc n) x)) = Suc n * length x + n * length sep"
  by (induction n) simp_all

lemma list_all_join:
  "list_all P sep \<Longrightarrow> \<forall>x\<in>set xs. list_all P x \<Longrightarrow> list_all P (join sep xs)"
  by (induction sep xs rule: join.induct) simp_all


lemma JSON_stringify_replicate:
  "JSON_stringify (JArr (replicate (Suc n) x)) =
     [0x5B] @ join [0x2C] (replicate (Suc n) (stringify 0 0 x)) @ [0x5D]"
  by (simp add: JSON_stringify_def wrap_def stringify_elements_replicate del: replicate.simps)

lemma decimal_digit: "n < 10 \<Longrightarrow> decimal n = [digit_cu n]"
  by (simp add: decimal.simps)

lemma stringify_demo_row: "stringify 0 0 (JObj [(js ''k'', JNum 7)]) = [0x7B, 0x22, 0x6B, 0x22, 0x3A, 0x37, 0x7D]"
  by (simp add: wrap_def QuoteJSONString_def quote_unit_def is_lead_def is_trail_def js_def
        show_int_def decimal_digit digit_cu_def)

lemma utf8_length_demo_rows:
  "utf8_length (JSON_stringify (JArr (replicate (Suc n) (JObj [(js ''k'', JNum 7)])))) = 8 * n + 9"
proof -
  let ?s = "JSON_stringify (JArr (replicate (Suc n) (JObj [(js ''k'', JNum 7)])))"
  have "list_all (\<lambda>c. c < 0x80) ?s"
    unfolding JSON_stringify_replicate stringify_demo_row
    by (auto intro!: list_all_join simp del: replicate.simps)
  then have "utf8_length ?s = length ?s"
    by (rule utf8_length_ascii)
  also have "\<dots> = 8 * n + 9"
    unfolding JSON_stringify_replicate stringify_demo_row
    by (simp add: length_join_replicate del: replicate.simps)
  finally show ?thesis .
qed

lemma dispatch_customer_analysis:
  "dispatch w (Some (JStr (js ''customer_analysis''))) None =
     (report w (js ''getCustomerAnalysis'') [JStr (js ''lifetime_value''), JStr (js ''industry'')], w)"
  by (simp add: dispatch_def report2_def get_param_def or_default_def js_def)

lemma saveLargeResultToS3_ok:
  assumes "s3_fault w = None"
  shows "\<exists>r w'. saveLargeResultToS3 w result operation startTime = (Inr (Large r), w')
     \<and> lr_operation r = operation
     \<and> lr_recordCount r = js_length result
     \<and> lr_s3Url r = js ''s3://'' @ s3Bucket w @ js ''/'' @ s3Key operation (clock w (reads w))
     \<and> lr_downloadUrl r = js ''/download/'' @ last_segment [] (s3Key operation (clock w (reads w)))
     \<and> s3_objects w' = (s3_objects w)(s3Key operation (clock w (reads w)) \<mapsto>
           JSON_stringify_pretty (resultData operation result (iso w (clock w (Suc (reads w))))))
     \<and> s3_fault w' = None \<and> clock w' = clock w \<and> reads w' = reads w + 4 \<and> iso w' = iso w
     \<and> s3Bucket w' = s3Bucket w \<and> executed w' = executed w"
  using assms
  by (simp add: saveLargeResultToS3_def Date_now_def new_Date_toISOString_def PutObject_def Let_def)

text \<open>
  Claim C1.  A result of at most 1000 rows whose serialization takes at most 5,000,000
  bytes is returned inline, with the rows in \<open>data\<close>; a result of 1001 rows or more is
  written to the result bucket (the write succeeding) and answered by a response that
  carries \<open>s3Url\<close> and \<open>downloadUrl\<close> and no \<open>data\<close>.  Exactly 1000 rows stay inline.
\<close>

theorem routing_by_row_count:
  assumes "dispatch (snd (Date_now w)) operation parameters = (Inr (JArr rows), w1)"
  shows "(length rows \<le> 1000 \<and> utf8_length (JSON_stringify (JArr rows)) \<le> 5000000 \<longrightarrow>
           (\<exists>r w'. executeAnalyticsOperation w operation parameters = (Inline r, w')
                  \<and> ir_data r = JArr rows \<and> ir_resultCount r = length rows
                  \<and> s3_objects w' = s3_objects w1))
       \<and> (1001 \<le> length rows \<and> s3_fault w1 = None \<longrightarrow>
           (\<exists>r w' key. executeAnalyticsOperation w operation parameters = (Large r, w')
                  \<and> lr_recordCount r = Some (length rows)
                  \<and> lr_s3Url r = js ''s3://'' @ s3Bucket w1 @ js ''/'' @ key
                  \<and> lr_downloadUrl r = js ''/download/'' @ last_segment [] key
                  \<and> (\<exists>generatedAt. s3_objects w' key =
                        Some (JSON_stringify_pretty (resultData operation (JArr rows) generatedAt)))
                  \<and> get_prop (response_json (Large r)) (js ''data'') = Inr None))"
proof (intro conjI impI)
  assume small: "length rows \<le> 1000 \<and> utf8_length (JSON_stringify (JArr rows)) \<le> 5000000"
  have "length (JSON_stringify (JArr rows)) \<le> utf8_length (JSON_stringify (JArr rows))"
    by (rule length_le_utf8_length)
  with small have "\<not> 5000000 < length (JSON_stringify (JArr rows))" by linarith
  with small assms show "\<exists>r w'. executeAnalyticsOperation w operation parameters = (Inline r, w')
                  \<and> ir_data r = JArr rows \<and> ir_resultCount r = length rows \<and> s3_objects w' = s3_objects w1"
    by (simp add: executeAnalyticsOperation_def route_def Date_now_def new_Date_toISOString_def Let_def)
next
  assume big: "1001 \<le> length rows \<and> s3_fault w1 = None"
  then have gt: "1000 < length rows" by simp
  from big saveLargeResultToS3_ok [of w1 "JArr rows" operation "clock w (reads w)"]
  obtain r w' where sv: "saveLargeResultToS3 w1 (JArr rows) operation (clock w (reads w)) = (Inr (Large r), w')"
     and r: "lr_recordCount r = js_length (JArr rows)"
      "lr_s3Url r = js ''s3://'' @ s3Bucket w1 @ js ''/'' @ s3Key operation (clock w1 (reads w1))"
      "lr_downloadUrl r = js ''/download/'' @ last_segment [] (s3Key operation (clock w1 (reads w1)))"
      "s3_objects w' = (s3_objects w1)(s3Key operation (clock w1 (reads w1)) \<mapsto>
           JSON_stringify_pretty (resultData operation (JArr rows) (iso w1 (clock w1 (Suc (reads w1))))))"
    by blast
  have run: "executeAnalyticsOperation w operation parameters = (Large r, w')"
    using assms gt sv by (simp add: executeAnalyticsOperation_def route_def Date_now_def Let_def)
  have nodata: "get_prop (response_json (Large r)) (js ''data'') = Inr None"
    by (cases "lr_operation r"; cases "lr_recordCount r"; simp add: get_prop_def num_opt_def js_def)
  show "\<exists>r w' key. executeAnalyticsOperation w operation parameters = (Large r, w')
                  \<and> lr_recordCount r = Some (length rows)
                  \<and> lr_s3Url r = js ''s3://'' @ s3Bucket w1 @ js ''/'' @ key
                  \<and> lr_downloadUrl r = js ''/download/'' @ last_segment [] key
                  \<and> (\<exists>generatedAt. s3_objects w' key =
                        Some (JSON_stringify_pretty (resultData operation (JArr rows) generatedAt)))
                  \<and> get_prop (response_json (Large r)) (js ''data'') = Inr None"
    using run r nodata
    by (intro exI [of _ r] exI [of _ w'] exI [of _ "s3Key operation (clock w1 (reads w1))"]) auto
qed

theorem routing_by_row_count_witness:
  "(\<exists>r w'. executeAnalyticsOperation (world_reporting (JArr (replicate 1000 (JObj [(js ''k'', JNum 7)]))))
              (Some (JStr (js ''customer_analysis''))) None = (Inline r, w')
          \<and> ir_resultCount r = 1000)
   \<and> (\<exists>r w'. executeAnalyticsOperation (world_reporting (JArr (replicate 1001 (JObj [(js ''k'', JNum 7)]))))
              (Some (JStr (js ''customer_analysis''))) None = (Large r, w')
          \<and> lr_recordCount r = Some 1001)"
proof
  let ?rows = "replicate 1000 (JObj [(js ''k'', JNum 7)])"
  let ?w = "world_reporting (JArr ?rows)"
  have d: "dispatch (snd (Date_now ?w)) (Some (JStr (js ''customer_analysis''))) None
             = (Inr (JArr ?rows), snd (Date_now ?w))"
    unfolding dispatch_customer_analysis by (simp add: world_reporting_def Date_now_def)
  have "utf8_length (JSON_stringify (JArr ?rows)) = 8001"
    using utf8_length_demo_rows [of 999] by simp
  then have small: "length ?rows \<le> 1000 \<and> utf8_length (JSON_stringify (JArr ?rows)) \<le> 5000000"
    by simp
  from routing_by_row_count [OF d] small
  show "\<exists>r w'. executeAnalyticsOperation ?w (Some (JStr (js ''customer_analysis''))) None = (Inline r, w')
          \<and> ir_resultCount r = 1000"
    by auto
next
  let ?rows = "replicate 1001 (JObj [(js ''k'', JNum 7)])"
  let ?w = "world_reporting (JArr ?rows)"
  have d: "dispatch (snd (Date_now ?w)) (Some (JStr (js ''customer_analysis''))) None
             = (Inr (JArr ?rows), snd (Date_now ?w))"
    unfolding dispatch_customer_analysis by (simp add: world_reporting_def Date_now_def)
  have big: "1001 \<le> length ?rows \<and> s3_fault (snd (Date_now ?w)) = None"
    by (simp add: world_reporting_def Date_now_def)
  from routing_by_row_count [OF d] big
  show "\<exists>r w'. executeAnalyticsOperation ?w (Some (JStr (js ''customer_analysis''))) None = (Large r, w')
          \<and> lr_recordCount r = Some 1001"
    by auto
qed

section \<open>The byte threshold\<close>

lemma route_small:
  assumes "length rows \<le> 1000" and "length (JSON_stringify (JArr rows)) \<le> 5000000"
  shows "\<exists>r w'. route w operation operationId startTime (JArr rows) = (Inr (Inline r), w')
           \<and> ir_data r = JArr rows \<and> ir_resultCount r = length rows \<and> s3_objects w' = s3_objects w"
  using assms by (simp add: route_def Date_now_def new_Date_toISOString_def)

lemma route_long:
  assumes "5000000 < length (JSON_stringify result)" and "result \<noteq> JNull"
  shows "route w operation operationId startTime result = saveLargeResultToS3 w result operation startTime"
  using assms by (simp add: route_def)

lemma executeAnalyticsOperation_route:
  assumes "dispatch (snd (Date_now w)) operation parameters = (Inr result, w1)"
    and "route w1 operation (template operation @ js ''_'' @ decimal (fst (Date_now w))) (fst (Date_now w)) result = (Inr r, w')"
  shows "executeAnalyticsOperation w operation parameters = (r, w')"
  using assms by (cases "Date_now w") (simp add: executeAnalyticsOperation_def Let_def)

lemma JSON_stringify_accented_rows:
  "JSON_stringify (JArr (accented_rows n)) =
     [0x5B, 0x7B, 0x22, 0x6E, 0x61, 0x6D, 0x65, 0x22, 0x3A, 0x22] @ (accents n @ [0x22, 0x7D, 0x5D])"
  by (simp add: accented_rows_def JSON_stringify_def wrap_def QuoteJSONString_def quote_units_accents
        quote_unit_def is_lead_def is_trail_def js_def)

lemma length_accented_rows: "length (JSON_stringify (JArr (accented_rows n))) = n + 13"
  unfolding JSON_stringify_accented_rows by (simp add: accents_def)

lemma utf8_length_accented_rows: "utf8_length (JSON_stringify (JArr (accented_rows n))) = 2 * n + 13"
proof -
  have "accents n = [] \<or> \<not> is_lead (last (accents n))"
    by (cases n) (simp_all add: accents_def is_lead_def)
  then have "utf8_length (accents n @ [0x22, 0x7D, 0x5D]) = 2 * n + 3"
    by (simp add: utf8_length_append utf8_length_accents unit_bytes_def is_lead_def)
  then show ?thesis
    unfolding JSON_stringify_accented_rows
    by (subst utf8_length_append) (simp_all add: is_lead_def unit_bytes_def)
qed

text \<open>
  Claim C8, as the code has it.  For a result of at most 1000 rows (the write to the
  bucket succeeding) the result is persisted exactly when \<open>JSON.stringify(result).length\<close>,
  the number of UTF-16 code units of the serialization, exceeds 5,000,000.  That number
  never exceeds the UTF-8 byte length and equals it when the serialization is ASCII.
\<close>

theorem size_test_counts_code_units:
  assumes "dispatch (snd (Date_now w)) operation parameters = (Inr (JArr rows), w1)"
    and "length rows \<le> 1000"
    and "s3_fault w1 = None"
  shows "((\<exists>r w'. executeAnalyticsOperation w operation parameters = (Large r, w'))
            \<longleftrightarrow> 5000000 < length (JSON_stringify (JArr rows)))
       \<and> ((\<exists>r w'. executeAnalyticsOperation w operation parameters = (Inline r, w'))
            \<longleftrightarrow> length (JSON_stringify (JArr rows)) \<le> 5000000)
       \<and> length (JSON_stringify (JArr rows)) \<le> utf8_length (JSON_stringify (JArr rows))
       \<and> (list_all (\<lambda>c. c < 0x80) (JSON_stringify (JArr rows))
            \<longrightarrow> utf8_length (JSON_stringify (JArr rows)) = length (JSON_stringify (JArr rows)))"
proof (cases "5000000 < length (JSON_stringify (JArr rows))")
  case True
  let ?t = "fst (Date_now w)"
  let ?id = "template operation @ js ''_'' @ decimal ?t"
  from saveLargeResultToS3_ok [OF assms(3), of "JArr rows" operation ?t]
  obtain r w' where "saveLargeResultToS3 w1 (JArr rows) operation ?t = (Inr (Large r), w')"
    by blast
  with True have "route w1 operation ?id ?t (JArr rows) = (Inr (Large r), w')"
    by (simp add: route_long)
  from executeAnalyticsOperation_route [OF assms(1) this]
  have "executeAnalyticsOperation w operation parameters = (Large r, w')" .
  with True show ?thesis
    by (auto simp: length_le_utf8_length utf8_length_ascii)
next
  case False
  let ?t = "fst (Date_now w)"
  let ?id = "template operation @ js ''_'' @ decimal ?t"
  from False have "length (JSON_stringify (JArr rows)) \<le> 5000000" by simp
  from route_small [OF assms(2) this, of w1 operation ?id ?t]
  obtain r w' where "route w1 operation ?id ?t (JArr rows) = (Inr (Inline r), w')"
    by blast
  from executeAnalyticsOperation_route [OF assms(1) this]
  have "executeAnalyticsOperation w operation parameters = (Inline r, w')" .
  with False show ?thesis
    by (auto simp: length_le_utf8_length utf8_length_ascii)
qed

lemma dispatch_world_reporting:
  "dispatch (snd (Date_now (world_reporting result))) (Some (JStr (js ''customer_analysis''))) None
     = (Inr result, snd (Date_now (world_reporting result)))"
  unfolding dispatch_customer_analysis by (simp add: world_reporting_def Date_now_def)

theorem size_test_counts_code_units_witness:
  "length (JSON_stringify (JArr (accented_rows 2500000))) = 2500013
   \<and> (\<exists>r w'. executeAnalyticsOperation (world_reporting (JArr (accented_rows 2500000)))
                (Some (JStr (js ''customer_analysis''))) None = (Inline r, w'))"
proof -
  let ?w = "world_reporting (JArr (accented_rows 2500000))"
  have len: "length (JSON_stringify (JArr (accented_rows 2500000))) = 2500013"
    by (simp add: length_accented_rows)
  have "length (accented_rows 2500000) \<le> 1000"
    by (simp add: accented_rows_def)
  moreover have "s3_fault (snd (Date_now ?w)) = None"
    by (simp add: world_reporting_def Date_now_def)
  ultimately show ?thesis
    using size_test_counts_code_units [OF dispatch_world_reporting, of "accented_rows 2500000"] len
    by simp
qed

text \<open>
  The claim as stated fails: one row holding 2,500,000 letters e-acute serializes to
  2,500,013 code units but 5,000,013 bytes, and is returned inline.
\<close>

theorem byte_threshold_counterexample:
  "length (accented_rows 2500000) \<le> 1000
   \<and> 5000000 < utf8_length (JSON_stringify (JArr (accented_rows 2500000)))
   \<and> (\<exists>r w'. executeAnalyticsOperation (world_reporting (JArr (accented_rows 2500000)))
                (Some (JStr (js ''customer_analysis''))) None = (Inline r, w')
              \<and> ir_data r = JArr (accented_rows 2500000)
              \<and> s3_objects w' = Map.empty)"
proof -
  let ?w = "world_reporting (JArr (accented_rows 2500000))"
  let ?t = "fst (Date_now ?w)"
  let ?id = "template (Some (JStr (js ''customer_analysis''))) @ js ''_'' @ decimal ?t"
  have rows: "length (accented_rows 2500000) \<le> 1000"
    by (simp add: accented_rows_def)
  have len: "length (JSON_stringify (JArr (accented_rows 2500000))) \<le> 5000000"
    by (simp add: length_accented_rows)
  from route_small [OF rows len, of "snd (Date_now ?w)" "Some (JStr (js ''customer_analysis''))" ?id ?t]
  obtain r w' where r: "route (snd (Date_now ?w)) (Some (JStr (js ''customer_analysis''))) ?id ?t
        (JArr (accented_rows 2500000)) = (Inr (Inline r), w')"
     "ir_data r = JArr (accented_rows 2500000)" "s3_objects w' = s3_objects (snd (Date_now ?w))"
    by blast
  from executeAnalyticsOperation_route [OF dispatch_world_reporting r(1)]
  have "executeAnalyticsOperation ?w (Some (JStr (js ''customer_analysis''))) None = (Inline r, w')" .
  moreover have "s3_objects (snd (Date_now ?w)) = Map.empty"
    by (simp add: world_reporting_def Date_now_def)
  ultimately show ?thesis
    using rows r(2,3) by (auto simp: utf8_length_accented_rows)
qed

section \<open>Unknown operations\<close>

lemma dispatch_unknown:
  assumes "name \<notin> set registered_operations"
  shows "dispatch w (Some (JStr name)) parameters
           = (Inl (Error (js ''Unknown analytics operation: '' @ name)), w)"
  using assms by (auto simp: dispatch_def registered_operations_def template_def)

lemma executeAnalyticsOperation_throws:
  assumes "dispatch (snd (Date_now w)) operation parameters = (Inl e, w1)"
  shows "executeAnalyticsOperation w operation parameters =
          (Failure \<lparr>fr_operation = operation,
                    fr_operationId = template operation @ js ''_'' @ decimal (fst (Date_now w)),
                    fr_executionTime = executionTime_ms (fst (Date_now w1)) (fst (Date_now w)),
                    fr_error = e,
                    fr_suggestions = getErrorSuggestions e operation\<rparr>, snd (Date_now w1))"
  using assms
  by (cases "Date_now w"; cases "Date_now w1") (simp add: executeAnalyticsOperation_def Let_def)

text \<open>
  Claim C3, as the code has it.  For every operation name outside the \<open>switch\<close>, the call
  returns a failure response: \<open>success\<close> is false, \<open>error.type\<close> is \<open>Error\<close>, the name of the
  only error class the code throws, and \<open>error.message\<close> names the operation.  Nothing is
  written to the bucket and no statement is sent to the store.
\<close>

theorem unknown_operation_response:
  assumes "name \<notin> set registered_operations"
  shows "\<exists>r w'. executeAnalyticsOperation w (Some (JStr name)) parameters = (Failure r, w')
           \<and> err_type (fr_error r) = js ''Error''
           \<and> err_message (fr_error r) = js ''Unknown analytics operation: '' @ name
           \<and> get_prop (response_json (Failure r)) (js ''success'') = Inr (Some (JBool False))
           \<and> s3_objects w' = s3_objects w \<and> executed w' = executed w"
proof -
  from dispatch_unknown [OF assms]
  have "dispatch (snd (Date_now w)) (Some (JStr name)) parameters
          = (Inl (Error (js ''Unknown analytics operation: '' @ name)), snd (Date_now w))" .
  from executeAnalyticsOperation_throws [OF this]
  show ?thesis
    by (simp add: Error_def get_prop_def js_def Date_now_def)
qed

lemma invalid_operation_x_unregistered: "js ''invalid_operation_x'' \<notin> set registered_operations"
  by (simp add: registered_operations_def js_def)

theorem unknown_operation_response_witness:
  "\<exists>r w'. executeAnalyticsOperation demo_world (Some (JStr (js ''invalid_operation_x''))) None = (Failure r, w')
      \<and> err_type (fr_error r) = js ''Error''
      \<and> err_message (fr_error r) = js ''Unknown analytics operation: '' @ js ''invalid_operation_x''"
  using unknown_operation_response [OF invalid_operation_x_unregistered, of demo_world None]
  by blast

text \<open>
  The claim as stated fails at \<open>invalid_operation_x\<close>: the error type is \<open>Error\<close>, not
  \<open>UnknownOperationError\<close>, and both the GET and the POST form of the request are answered
  with status 200.
\<close>

theorem unknown_operation_counterexample:
  "js ''invalid_operation_x'' \<notin> set registered_operations
   \<and> (\<exists>r. fst (executeAnalyticsOperation demo_world (Some (JStr (js ''invalid_operation_x''))) None) = Failure r
          \<and> err_type (fr_error r) = js ''Error''
          \<and> err_type (fr_error r) \<noteq> js ''UnknownOperationError'')
   \<and> statusCode (fst (handleApiGatewayEvent demo_world get_invalid_operation)) = 200
   \<and> statusCode (fst (handleApiGatewayEvent demo_world post_invalid_operation)) = 200
   \<and> map_option (\<lambda>v. get_prop v (js ''error''))
        (JSON_parse (body (fst (handleApiGatewayEvent demo_world post_invalid_operation))))
      = Some (Inr (Some (JObj
          [(js ''message'', JStr (js ''Unknown analytics operation: invalid_operation_x'')),
           (js ''type'', JStr (js ''Error''))])))"
proof -
  have "fst (executeAnalyticsOperation demo_world (Some (JStr (js ''invalid_operation_x''))) None) =
    Failure \<lparr>fr_operation = Some (JStr (js ''invalid_operation_x'')),
      fr_operationId = js ''invalid_operation_x_17'', fr_executionTime = js ''1ms'',
      fr_error = Error (js ''Unknown analytics operation: invalid_operation_x''),
      fr_suggestions = [js ''Check parameters and try again'']\<rparr>"
    by code_simp
  moreover have "js ''Error'' \<noteq> js ''UnknownOperationError''"
    by (simp add: js_def)
  moreover have "statusCode (fst (handleApiGatewayEvent demo_world get_invalid_operation)) = 200"
    by code_simp
  moreover have "statusCode (fst (handleApiGatewayEvent demo_world post_invalid_operation)) = 200"
    by code_simp
  moreover have "map_option (\<lambda>v. get_prop v (js ''error''))
        (JSON_parse (body (fst (handleApiGatewayEvent demo_world post_invalid_operation))))
      = Some (Inr (Some (JObj
          [(js ''message'', JStr (js ''Unknown analytics operation: invalid_operation_x'')),
           (js ''type'', JStr (js ''Error''))])))"
    by code_simp
  ultimately show ?thesis
    using invalid_operation_x_unregistered by (simp add: Error_def)
qed

section \<open>The sandbox\<close>

lemma match_here_many1:
  assumes "u \<noteq> []" and "list_all (atom_match a) u" and "match_here r s"
  shows "match_here (Many1 a # r) (u @ s)"
  using assms
proof (induction u)
  case Nil
  then show ?case by simp
next
  case (Cons c u)
  then show ?case by (cases u) auto
qed

lemma match_here_lang: "lang p m \<Longrightarrow> match_here p (m @ post)"
proof (induction p arbitrary: m)
  case Nil
  then show ?case by simp
next
  case (Cons i p)
  show ?case
  proof (cases i)
    case (One a)
    with Cons show ?thesis by auto
  next
    case (Many1 a)
    with Cons.prems obtain u t where "m = u @ t" "u \<noteq> []" "list_all (atom_match a) u" "lang p t"
      by auto
    with Cons.IH [of t] Many1 show ?thesis
      by (simp add: match_here_many1)
  qed
qed

lemma test_here: "match_here p s \<Longrightarrow> test p s"
  by (cases s) simp_all

lemma test_append: "match_here p s \<Longrightarrow> test p (pre @ s)"
  by (induction pre) (simp_all add: test_here)

lemma test_lang: "lang p m \<Longrightarrow> test p (pre @ m @ post)"
  by (simp add: test_append match_here_lang)

lemma lang_lit: "ci_equal kw s \<Longrightarrow> lang r t \<Longrightarrow> lang (lit s @ r) (kw @ t)"
  unfolding ci_equal_def lit_def
  by (induction kw s rule: list_all2_induct) simp_all

lemma lang_blank: "blank ws \<Longrightarrow> lang r t \<Longrightarrow> lang (Many1 Space # r) (ws @ t)"
  unfolding blank_def by (auto simp: list_all_iff)

lemma lang_keyword_space:
  assumes "ci_equal kw s" and "is_space sp"
  shows "lang (lit s @ [Many1 Space]) (kw @ [sp])"
proof -
  have "lang [Many1 Space] ([sp] @ [])"
    using assms(2) by (intro lang_blank) (simp_all add: blank_def)
  with assms(1) show ?thesis
    using lang_lit [of kw s "[Many1 Space]" "[sp]"] by simp
qed

lemma lang_two_keywords:
  assumes "ci_equal k1 s1" and "blank ws" and "ci_equal k2 s2"
  shows "lang (lit s1 @ [Many1 Space] @ lit s2) (k1 @ ws @ k2)"
proof -
  have "lang (lit s2 @ []) (k2 @ [])"
    using assms(3) by (intro lang_lit) simp_all
  then have "lang (Many1 Space # lit s2) (ws @ k2)"
    using assms(2) by (intro lang_blank) simp_all
  with assms(1) show ?thesis
    using lang_lit [of k1 s1 "Many1 Space # lit s2" "ws @ k2"] by simp
qed

lemma lang_update_set:
  assumes "ci_equal k1 ''UPDATE''" and "blank ws1" and "wd \<noteq> []" and "list_all is_word wd"
    and "blank ws2" and "ci_equal k2 ''SET''"
  shows "lang (lit ''UPDATE'' @ [Many1 Space, Many1 Word, Many1 Space] @ lit ''SET'')
           (k1 @ ws1 @ wd @ ws2 @ k2)"
proof -
  have "lang (lit ''SET'' @ []) (k2 @ [])"
    using assms(6) by (intro lang_lit) simp_all
  then have "lang (Many1 Space # lit ''SET'') (ws2 @ k2)"
    using assms(5) by (intro lang_blank) simp_all
  then have "lang (Many1 Word # Many1 Space # lit ''SET'') (wd @ ws2 @ k2)"
    using assms(3,4) by (auto simp: list_all_iff)
  then have "lang (Many1 Space # Many1 Word # Many1 Space # lit ''SET'') (ws1 @ wd @ ws2 @ k2)"
    using assms(2) by (intro lang_blank)
  with assms(1) show ?thesis
    using lang_lit [of k1 "''UPDATE''" "Many1 Space # Many1 Word # Many1 Space # lit ''SET''"
            "ws1 @ wd @ ws2 @ k2"] by simp
qed

lemma forbidden_pattern_tests:
  assumes "mentions_forbidden q"
  shows "\<exists>pattern\<in>set forbiddenPatterns. test pattern q"
proof -
  have one: "\<exists>pattern\<in>set forbiddenPatterns. test pattern (pre @ kw @ sp # post)"
    if "is_space sp" and "ci_equal kw s" and "lit s @ [Many1 Space] \<in> set forbiddenPatterns"
    for pre kw sp post s
    using test_lang [OF lang_keyword_space [OF that(2,1)], of pre post] that(3)
    by (intro bexI [of _ "lit s @ [Many1 Space]"]) simp_all
  have two: "\<exists>pattern\<in>set forbiddenPatterns. test pattern (pre @ k1 @ ws @ k2 @ post)"
    if "ci_equal k1 s1" and "blank ws" and "ci_equal k2 s2"
      and "lit s1 @ [Many1 Space] @ lit s2 \<in> set forbiddenPatterns"
    for pre k1 ws k2 post s1 s2
    using test_lang [OF lang_two_keywords [OF that(1,2,3)], of pre post] that(4)
    by (intro bexI [of _ "lit s1 @ [Many1 Space] @ lit s2"]) simp_all
  have three: "\<exists>pattern\<in>set forbiddenPatterns. test pattern (pre @ k1 @ ws1 @ wd @ ws2 @ k2 @ post)"
    if "ci_equal k1 ''UPDATE''" and "blank ws1" and "wd \<noteq> []" and "list_all is_word wd"
      and "blank ws2" and "ci_equal k2 ''SET''"
    for pre k1 ws1 wd ws2 k2 post
    using test_lang [OF lang_update_set [OF that], of pre post]
    by (intro bexI [of _ "lit ''UPDATE'' @ [Many1 Space, Many1 Word, Many1 Space] @ lit ''SET''"])
       (simp_all add: forbiddenPatterns_def)
  have mem: "lit ''DROP'' @ [Many1 Space] \<in> set forbiddenPatterns"
    "lit ''TRUNCATE'' @ [Many1 Space] \<in> set forbiddenPatterns"
    "lit ''CREATE'' @ [Many1 Space] \<in> set forbiddenPatterns"
    "lit ''ALTER'' @ [Many1 Space] \<in> set forbiddenPatterns"
    "lit ''GRANT'' @ [Many1 Space] \<in> set forbiddenPatterns"
    "lit ''REVOKE'' @ [Many1 Space] \<in> set forbiddenPatterns"
    "lit ''DELETE'' @ [Many1 Space] @ lit ''FROM'' \<in> set forbiddenPatterns"
    "lit ''INSERT'' @ [Many1 Space] @ lit ''INTO'' \<in> set forbiddenPatterns"
    by (simp_all add: forbiddenPatterns_def)
  from assms show ?thesis
    unfolding mentions_forbidden_def
    using one mem two three by blast
qed

lemma validateCustomQuery_forbidden:
  assumes "mentions_forbidden q"
  shows "validateCustomQuery (JStr q) = Some (Error (js ''Query contains forbidden operations''))"
  using forbidden_pattern_tests [OF assms]
  by (simp add: validateCustomQuery_def list_ex_iff)

lemma dispatch_custom_query:
  assumes "map_of kvs (js ''query'') = Some (JStr q)" and "q \<noteq> []"
  shows "dispatch w (Some (JStr (js ''custom_complex_query''))) (Some (JObj kvs))
          = executeCustomComplexQuery w (JStr q) (map_of kvs (js ''params''))"
  using assms by (simp add: dispatch_def get_param_def get_prop_def js_def)

lemma mentions_forbidden_nonempty: "mentions_forbidden q \<Longrightarrow> q \<noteq> []"
  by (auto simp: mentions_forbidden_def blank_def)

lemma saveLargeResultToS3_executed:
  "executed (snd (saveLargeResultToS3 w result operation startTime)) = executed w"
  by (simp add: saveLargeResultToS3_def Date_now_def new_Date_toISOString_def PutObject_def
        split: option.splits)

lemma route_executed:
  "executed (snd (route w operation operationId startTime result)) = executed w"
  by (simp add: route_def saveLargeResultToS3_executed Date_now_def new_Date_toISOString_def)

lemma executeAnalyticsOperation_executed:
  "executed (snd (executeAnalyticsOperation w operation parameters))
     = executed (snd (dispatch (snd (Date_now w)) operation parameters))"
proof (cases "dispatch (snd (Date_now w)) operation parameters")
  case (Pair res w1)
  show ?thesis
  proof (cases res)
    case (Inl e)
    with Pair executeAnalyticsOperation_throws [of w operation parameters e w1]
    show ?thesis by (simp add: Date_now_def)
  next
    case (Inr result)
    let ?t = "fst (Date_now w)"
    let ?id = "template operation @ js ''_'' @ decimal ?t"
    obtain out w2 where rt: "route w1 operation ?id ?t result = (out, w2)"
      by (cases "route w1 operation ?id ?t result")
    with route_executed [of w1 operation ?id ?t result] have ex: "executed w2 = executed w1"
      by simp
    from Pair Inr rt ex show ?thesis
      by (cases out; cases "Date_now w")
         (simp_all add: executeAnalyticsOperation_def Let_def Date_now_def)
  qed
qed

lemma custom_query_sent:
  assumes "map_of kvs (js ''query'') = Some (JStr q)" and "q \<noteq> []"
    and "validateCustomQuery (JStr q) = None" and "pool_fault w = None"
  shows "executed (snd (executeAnalyticsOperation w (Some (JStr (js ''custom_complex_query'')))
                          (Some (JObj kvs))))
          = executed w @ [(JStr q, Some (case map_of kvs (js ''params'') of None \<Rightarrow> JArr [] | Some p \<Rightarrow> p))]"
  using assms
  by (simp add: executeAnalyticsOperation_executed dispatch_custom_query executeCustomComplexQuery_def
        query_rows_def Date_now_def split: sum.splits)

text \<open>
  Claim C4, as the code has it.  An ad-hoc query in which DROP, TRUNCATE, CREATE, ALTER,
  GRANT or REVOKE is directly followed by a whitespace character, or which holds DELETE
  FROM, INSERT INTO or UPDATE word SET with whitespace between the words (ASCII letters in
  either case), is rejected by \<open>custom_complex_query\<close>: the response is a failure whose
  error has type \<open>Error\<close> and message \<open>Query contains forbidden operations\<close>, and no
  statement is sent to the store.
\<close>

theorem forbidden_query_rejected:
  assumes "map_of kvs (js ''query'') = Some (JStr q)" and "mentions_forbidden q"
  shows "\<exists>r w'. executeAnalyticsOperation w (Some (JStr (js ''custom_complex_query''))) (Some (JObj kvs))
                   = (Failure r, w')
           \<and> fr_error r = Error (js ''Query contains forbidden operations'')
           \<and> err_type (fr_error r) = js ''Error''
           \<and> executed w' = executed w"
proof -
  have "dispatch (snd (Date_now w)) (Some (JStr (js ''custom_complex_query''))) (Some (JObj kvs))
          = (Inl (Error (js ''Query contains forbidden operations'')), snd (Date_now w))"
    using assms
    by (simp add: dispatch_custom_query mentions_forbidden_nonempty executeCustomComplexQuery_def
          validateCustomQuery_forbidden)
  from executeAnalyticsOperation_throws [OF this]
  show ?thesis
    by (simp add: Error_def Date_now_def)
qed

lemma mentions_forbidden_drop:
  assumes "is_space sp" and "ci_equal kw ''DROP''"
  shows "mentions_forbidden (pre @ kw @ sp # post)"
proof -
  have "\<exists>pre' kw' sp' post'. pre @ kw @ sp # post = pre' @ kw' @ sp' # post' \<and> is_space sp'
         \<and> (ci_equal kw' ''DROP'' \<or> ci_equal kw' ''TRUNCATE'' \<or> ci_equal kw' ''CREATE''
              \<or> ci_equal kw' ''ALTER'' \<or> ci_equal kw' ''GRANT'' \<or> ci_equal kw' ''REVOKE'')"
    using assms by (intro exI [of _ pre] exI [of _ kw] exI [of _ sp] exI [of _ post]) simp
  then show ?thesis
    unfolding mentions_forbidden_def by (rule disjI1)
qed

lemma drop_table_forbidden: "mentions_forbidden (js ''select 1; drop table entities'')"
proof -
  have eq: "js ''select 1; drop table entities'' = js ''select 1; '' @ js ''drop'' @ 0x20 # js ''table entities''"
    by (simp add: js_def)
  have sp: "is_space 0x20"
    by (simp add: is_space_def)
  have kw: "ci_equal (js ''drop'') ''DROP''"
    by code_simp
  show ?thesis
    unfolding eq using sp kw by (rule mentions_forbidden_drop)
qed
theorem forbidden_query_rejected_witness:
  "\<exists>r w'. executeAnalyticsOperation demo_world (Some (JStr (js ''custom_complex_query'')))
             (custom_query_parameters ''select 1; drop table entities'') = (Failure r, w')
        \<and> fr_error r = Error (js ''Query contains forbidden operations'')
        \<and> executed w' = []"
proof -
  have "map_of [(js ''query'', JStr (js ''select 1; drop table entities''))] (js ''query'')
          = Some (JStr (js ''select 1; drop table entities''))"
    by simp
  from forbidden_query_rejected [OF this drop_table_forbidden, of demo_world]
  show ?thesis
    by (auto simp: custom_query_parameters_def demo_world_def world_reporting_def)
qed

text \<open>
  The claim as stated fails: \<open>DROP/**/TABLE entities\<close> contains DROP, passes the
  validator and is sent to the store; and where a query is rejected, the error type is
  \<open>Error\<close>, not \<open>ForbiddenQueryError\<close>.
\<close>

theorem forbidden_query_counterexample:
  "includes_js (js ''DROP/**/TABLE entities'') (js ''DROP'')
   \<and> validateCustomQuery (JStr (js ''DROP/**/TABLE entities'')) = None
   \<and> executed (snd (executeAnalyticsOperation demo_world (Some (JStr (js ''custom_complex_query'')))
                  (custom_query_parameters ''DROP/**/TABLE entities'')))
       = [(JStr (js ''DROP/**/TABLE entities''), Some (JArr []))]
   \<and> (\<exists>r. fst (executeAnalyticsOperation demo_world (Some (JStr (js ''custom_complex_query'')))
                  (custom_query_parameters ''DROP TABLE entities'')) = Failure r
          \<and> err_type (fr_error r) = js ''Error''
          \<and> err_type (fr_error r) \<noteq> js ''ForbiddenQueryError'')"
proof -
  have inc: "includes_js (js ''DROP/**/TABLE entities'') (js ''DROP'')"
    by (simp add: js_def)
  have ok: "validateCustomQuery (JStr (js ''DROP/**/TABLE entities'')) = None"
    by code_simp
  have sent: "executed (snd (executeAnalyticsOperation demo_world (Some (JStr (js ''custom_complex_query'')))
                  (custom_query_parameters ''DROP/**/TABLE entities'')))
       = [(JStr (js ''DROP/**/TABLE entities''), Some (JArr []))]"
    unfolding custom_query_parameters_def
    by (subst custom_query_sent [where q = "js ''DROP/**/TABLE entities''"])
       (simp_all add: ok demo_world_def world_reporting_def, simp_all add: js_def)
  have "fst (executeAnalyticsOperation demo_world (Some (JStr (js ''custom_complex_query'')))
                  (custom_query_parameters ''DROP TABLE entities''))
      = Failure \<lparr>fr_operation = Some (JStr (js ''custom_complex_query'')),
           fr_operationId = js ''custom_complex_query_17'', fr_executionTime = js ''1ms'',
           fr_error = Error (js ''Query contains forbidden operations''),
           fr_suggestions = [js ''Check parameters and try again'']\<rparr>"
    by code_simp
  moreover have "js ''Error'' \<noteq> js ''ForbiddenQueryError''"
    by (simp add: js_def)
  ultimately show ?thesis
    using inc ok sent by (simp add: Error_def)
qed

section \<open>Required parameters\<close>

lemma dispatch_query_missing:
  assumes "get_param parameters (js ''query'') = Inr q" and "q = None \<or> (\<exists>v. q = Some v \<and> \<not> truthy v)"
  shows "dispatch w (Some (JStr (js ''custom_complex_query''))) parameters
           = (Inl (Error (js ''Custom query is required for this operation'')), w)"
  using assms by (auto simp: dispatch_def js_def)

lemma map_of_set_prop:
  "map_of (set_prop k v kvs) k' = (if k' = k then Some v else map_of kvs k')"
  by (induction kvs) auto

lemma dispatch_no_parameters:
  assumes "parameters = None \<or> parameters = Some (JObj [])"
  shows "dispatch w (Some (JStr (js ''database_info''))) parameters
           = (report w (js ''getDatabaseInfo'') [], w)"
    and "dispatch w (Some (JStr (js ''multi_dimensional_analytics''))) parameters
           = (report w (js ''getMultiDimensionalAnalytics'') [JStr (js ''3 months'')], w)"
    and "dispatch w (Some (JStr (js ''relationship_network''))) parameters
           = (report w (js ''getEntityRelationshipNetwork'') [JNull], w)"
    and "dispatch w (Some (JStr (js ''time_series_patterns''))) parameters
           = (report w (js ''getTimeSeriesPatterns'') [JStr (js ''6 months'')], w)"
    and "dispatch w (Some (JStr (js ''data_integrity_analysis''))) parameters
           = (report w (js ''getDataIntegrityAnalysis'') [], w)"
    and "dispatch w (Some (JStr (js ''customer_analysis''))) parameters
           = (report w (js ''getCustomerAnalysis'') [JStr (js ''lifetime_value''), JStr (js ''industry'')], w)"
    and "dispatch w (Some (JStr (js ''revenue_analysis''))) parameters
           = (report w (js ''getRevenueAnalysis'') [JStr (js ''annual_revenue''), JStr (js ''region'')], w)"
    and "dispatch w (Some (JStr (js ''count_analysis''))) parameters
           = (report w (js ''getCountAnalysis'') [JStr (js ''customer_count''), JStr (js ''industry'')], w)"
    and "dispatch w (Some (JStr (js ''simple_demo''))) parameters
           = (report w (js ''getSimpleDemo'') [], w)"
proof -
  have p: "get_param parameters k = Inr None" for k
    using assms by (auto simp: get_param_def get_prop_def)
  have d: "or_default None x = x" for x
    by (simp add: or_default_def)
  show "dispatch w (Some (JStr (js ''database_info''))) parameters
           = (report w (js ''getDatabaseInfo'') [], w)"
    by (simp add: dispatch_def)
  show "dispatch w (Some (JStr (js ''multi_dimensional_analytics''))) parameters
           = (report w (js ''getMultiDimensionalAnalytics'') [JStr (js ''3 months'')], w)"
    by (simp add: dispatch_def report1_def p d js_def)
  show "dispatch w (Some (JStr (js ''relationship_network''))) parameters
           = (report w (js ''getEntityRelationshipNetwork'') [JNull], w)"
    by (simp add: dispatch_def p js_def)
  show "dispatch w (Some (JStr (js ''time_series_patterns''))) parameters
           = (report w (js ''getTimeSeriesPatterns'') [JStr (js ''6 months'')], w)"
    by (simp add: dispatch_def report1_def p d js_def)
  show "dispatch w (Some (JStr (js ''data_integrity_analysis''))) parameters
           = (report w (js ''getDataIntegrityAnalysis'') [], w)"
    by (simp add: dispatch_def js_def)
  show "dispatch w (Some (JStr (js ''customer_analysis''))) parameters
           = (report w (js ''getCustomerAnalysis'') [JStr (js ''lifetime_value''), JStr (js ''industry'')], w)"
    by (simp add: dispatch_def report2_def p d js_def)
  show "dispatch w (Some (JStr (js ''revenue_analysis''))) parameters
           = (report w (js ''getRevenueAnalysis'') [JStr (js ''annual_revenue''), JStr (js ''region'')], w)"
    by (simp add: dispatch_def report2_def p d js_def)
  show "dispatch w (Some (JStr (js ''count_analysis''))) parameters
           = (report w (js ''getCountAnalysis'') [JStr (js ''customer_count''), JStr (js ''industry'')], w)"
    by (simp add: dispatch_def report2_def p d js_def)
  show "dispatch w (Some (JStr (js ''simple_demo''))) parameters
           = (report w (js ''getSimpleDemo'') [], w)"
    by (simp add: dispatch_def js_def)
qed

lemma handleDirectInvocation_failure:
  assumes "executeAnalyticsOperation w (Some (JStr name)) parameters = (Failure r, w')"
    and "name \<noteq> []"
  shows "handleDirectInvocation w (Some (JStr name)) parameters None = (Inr (response_json (Failure r)), w')"
    and "\<exists>result. handleDirectInvocation w (Some (JStr name)) parameters requestId = (Inr result, w')
           \<and> get_prop result (js ''success'') = Inr (Some (JBool False))
           \<and> get_prop result (js ''error'') = Inr (Some (JObj
                 [(js ''message'', JStr (err_message (fr_error r))),
                  (js ''type'', JStr (err_type (fr_error r)))]))"
proof -
  show "handleDirectInvocation w (Some (JStr name)) parameters None = (Inr (response_json (Failure r)), w')"
    using assms by (simp add: handleDirectInvocation_def)
  have s: "js ''success'' \<noteq> js ''requestId''" "js ''error'' \<noteq> js ''requestId''"
    by (simp_all add: js_def)
  have g: "get_prop (response_json (Failure r)) (js ''success'') = Inr (Some (JBool False))"
     "get_prop (response_json (Failure r)) (js ''error'') = Inr (Some (JObj
                 [(js ''message'', JStr (err_message (fr_error r))),
                  (js ''type'', JStr (err_type (fr_error r)))]))"
    by (cases "fr_operation r"; simp add: get_prop_def js_def)+
  show "\<exists>result. handleDirectInvocation w (Some (JStr name)) parameters requestId = (Inr result, w')
           \<and> get_prop result (js ''success'') = Inr (Some (JBool False))
           \<and> get_prop result (js ''error'') = Inr (Some (JObj
                 [(js ''message'', JStr (err_message (fr_error r))),
                  (js ''type'', JStr (err_type (fr_error r)))]))"
  proof (cases "\<exists>v. requestId = Some v \<and> truthy v")
    case False
    then have "handleDirectInvocation w (Some (JStr name)) parameters requestId
                 = (Inr (response_json (Failure r)), w')"
      using assms by (auto simp: handleDirectInvocation_def split: option.splits)
    with g show ?thesis by simp
  next
    case True
    then obtain v where v: "requestId = Some v" "truthy v" by blast
    obtain kvs where kvs: "response_json (Failure r) = JObj kvs"
      by simp
    with assms v have "handleDirectInvocation w (Some (JStr name)) parameters requestId
                 = (Inr (JObj (set_prop (js ''requestId'') v kvs)), w')"
      by (simp add: handleDirectInvocation_def)
    moreover have "map_of kvs (js ''success'') = Some (JBool False)"
      "map_of kvs (js ''error'') = Some (JObj
                 [(js ''message'', JStr (err_message (fr_error r))),
                  (js ''type'', JStr (err_type (fr_error r)))])"
      using g unfolding kvs get_prop_def by simp_all
    then have "get_prop (JObj (set_prop (js ''requestId'') v kvs)) (js ''success'') = Inr (Some (JBool False))"
      "get_prop (JObj (set_prop (js ''requestId'') v kvs)) (js ''error'') = Inr (Some (JObj
                 [(js ''message'', JStr (err_message (fr_error r))),
                  (js ''type'', JStr (err_type (fr_error r)))]))"
      using s by (simp_all add: get_prop_def map_of_set_prop)
    ultimately show ?thesis by simp
  qed
qed

lemma statuses_of_state_machine:
  "statuses_written analytics_job_state_machine = [js ''running'', js ''completed'', js ''completed'']"
  by (simp add: analytics_job_state_machine_def, simp add: js_def)

text \<open>
  Claim C6, as the code has it.  \<open>custom_complex_query\<close> is the one operation that checks
  for a parameter: with \<open>query\<close> omitted (or falsy) the call returns a failure response
  whose error has type \<open>Error\<close> and message \<open>Custom query is required for this operation\<close>,
  and sends nothing to the store.  Invoked directly, as the workflow does, the Lambda
  returns that same failure object without throwing: exactly the object of the failure
  response when no \<open>requestId\<close> is given, and with \<open>success\<close> false and the same \<open>error\<close>
  whatever the \<open>requestId\<close>.  Every other operation, called without parameters, runs its
  own report on its own defaults, listed one by one.  The workflow writes the statuses
  \<open>running\<close> and \<open>completed\<close> and never \<open>failed\<close>.
\<close>

theorem missing_query_parameter:
  assumes "get_param parameters (js ''query'') = Inr q"
    and "q = None \<or> (\<exists>v. q = Some v \<and> \<not> truthy v)"
    and "absent = None \<or> absent = Some (JObj [])"
  shows "(\<exists>r w'. executeAnalyticsOperation w (Some (JStr (js ''custom_complex_query''))) parameters
                    = (Failure r, w')
            \<and> fr_error r = Error (js ''Custom query is required for this operation'')
            \<and> err_type (fr_error r) = js ''Error''
            \<and> executed w' = executed w
            \<and> handleDirectInvocation w (Some (JStr (js ''custom_complex_query''))) parameters None
                    = (Inr (response_json (Failure r)), w')
            \<and> (\<exists>result. handleDirectInvocation w (Some (JStr (js ''custom_complex_query''))) parameters requestId
                    = (Inr result, w')
                  \<and> get_prop result (js ''success'') = Inr (Some (JBool False))
                  \<and> get_prop result (js ''error'') = Inr (Some (JObj
                       [(js ''message'', JStr (js ''Custom query is required for this operation'')),
                        (js ''type'', JStr (js ''Error''))]))))
       \<and> dispatch w (Some (JStr (js ''database_info''))) absent
            = (report w (js ''getDatabaseInfo'') [], w)
       \<and> dispatch w (Some (JStr (js ''multi_dimensional_analytics''))) absent
            = (report w (js ''getMultiDimensionalAnalytics'') [JStr (js ''3 months'')], w)
       \<and> dispatch w (Some (JStr (js ''relationship_network''))) absent
            = (report w (js ''getEntityRelationshipNetwork'') [JNull], w)
       \<and> dispatch w (Some (JStr (js ''time_series_patterns''))) absent
            = (report w (js ''getTimeSeriesPatterns'') [JStr (js ''6 months'')], w)
       \<and> dispatch w (Some (JStr (js ''data_integrity_analysis''))) absent
            = (report w (js ''getDataIntegrityAnalysis'') [], w)
       \<and> dispatch w (Some (JStr (js ''customer_analysis''))) absent
            = (report w (js ''getCustomerAnalysis'') [JStr (js ''lifetime_value''), JStr (js ''industry'')], w)
       \<and> dispatch w (Some (JStr (js ''revenue_analysis''))) absent
            = (report w (js ''getRevenueAnalysis'') [JStr (js ''annual_revenue''), JStr (js ''region'')], w)
       \<and> dispatch w (Some (JStr (js ''count_analysis''))) absent
            = (report w (js ''getCountAnalysis'') [JStr (js ''customer_count''), JStr (js ''industry'')], w)
       \<and> dispatch w (Some (JStr (js ''simple_demo''))) absent
            = (report w (js ''getSimpleDemo'') [], w)
       \<and> statuses_written analytics_job_state_machine = [js ''running'', js ''completed'', js ''completed'']
       \<and> js ''failed'' \<notin> set (statuses_written analytics_job_state_machine)"
proof -
  let ?op = "Some (JStr (js ''custom_complex_query''))"
  let ?e = "Error (js ''Custom query is required for this operation'')"
  from dispatch_query_missing [OF assms(1,2)]
  have "dispatch (snd (Date_now w)) ?op parameters = (Inl ?e, snd (Date_now w))" .
  from executeAnalyticsOperation_throws [OF this]
  obtain r w' where run: "executeAnalyticsOperation w ?op parameters = (Failure r, w')"
    and r: "fr_error r = ?e" and w': "w' = snd (Date_now (snd (Date_now w)))"
    by simp
  have name: "js ''custom_complex_query'' \<noteq> []"
    by (simp add: js_def)
  have e: "err_type ?e = js ''Error''" "err_message ?e = js ''Custom query is required for this operation''"
    by (simp_all add: Error_def)
  have kept: "executed w' = executed w"
    by (simp add: w' Date_now_def)
  from handleDirectInvocation_failure(2) [OF run name, of requestId]
  have answered: "\<exists>result. handleDirectInvocation w ?op parameters requestId = (Inr result, w')
      \<and> get_prop result (js ''success'') = Inr (Some (JBool False))
      \<and> get_prop result (js ''error'') = Inr (Some (JObj
           [(js ''message'', JStr (js ''Custom query is required for this operation'')),
            (js ''type'', JStr (js ''Error''))]))"
    by (simp add: r e)
  have failure: "\<exists>r w'. executeAnalyticsOperation w ?op parameters = (Failure r, w')
            \<and> fr_error r = ?e
            \<and> err_type (fr_error r) = js ''Error''
            \<and> executed w' = executed w
            \<and> handleDirectInvocation w ?op parameters None = (Inr (response_json (Failure r)), w')
            \<and> (\<exists>result. handleDirectInvocation w ?op parameters requestId = (Inr result, w')
                  \<and> get_prop result (js ''success'') = Inr (Some (JBool False))
                  \<and> get_prop result (js ''error'') = Inr (Some (JObj
                       [(js ''message'', JStr (js ''Custom query is required for this operation'')),
                        (js ''type'', JStr (js ''Error''))])))"
    using run r e(1) kept handleDirectInvocation_failure(1) [OF run name] answered
    by (intro exI [of _ r] exI [of _ w']) simp
  have never: "js ''failed'' \<notin> set (statuses_written analytics_job_state_machine)"
    unfolding statuses_of_state_machine by (simp add: js_def)
  show ?thesis
    by (intro conjI failure dispatch_no_parameters [OF assms(3)] statuses_of_state_machine never)
qed

theorem missing_query_parameter_witness:
  "(\<exists>r w'. executeAnalyticsOperation demo_world (Some (JStr (js ''custom_complex_query''))) (Some (JObj []))
              = (Failure r, w')
          \<and> fr_error r = Error (js ''Custom query is required for this operation'')
          \<and> handleDirectInvocation demo_world (Some (JStr (js ''custom_complex_query''))) (Some (JObj [])) None
              = (Inr (response_json (Failure r)), w'))
   \<and> dispatch demo_world (Some (JStr (js ''time_series_patterns''))) None
        = (report demo_world (js ''getTimeSeriesPatterns'') [JStr (js ''6 months'')], demo_world)
   \<and> dispatch demo_world (Some (JStr (js ''simple_demo''))) None
        = (report demo_world (js ''getSimpleDemo'') [], demo_world)"
proof -
  have 1: "get_param (Some (JObj [])) (js ''query'') = Inr None"
    by (simp add: get_param_def get_prop_def)
  have 2: "(None :: json option) = None \<or> (\<exists>v. (None :: json option) = Some v \<and> \<not> truthy v)"
    by simp
  have 3: "(None :: json option) = None \<or> (None :: json option) = Some (JObj [])"
    by simp
  from missing_query_parameter [OF 1 2 3, of demo_world None]
  show ?thesis by blast
qed

text \<open>
  The claim as stated fails: with \<open>query\<close> omitted the error type is \<open>Error\<close>, not
  \<open>ValidationError\<close>, and \<open>relationship_network\<close> without its \<open>rootEntityId\<close> is not
  refused at all: the report runs on \<open>null\<close>.
\<close>

theorem missing_parameter_counterexample:
  "(\<exists>r. fst (executeAnalyticsOperation demo_world (Some (JStr (js ''custom_complex_query''))) (Some (JObj [])))
           = Failure r
        \<and> err_type (fr_error r) = js ''Error''
        \<and> err_type (fr_error r) \<noteq> js ''ValidationError'')
   \<and> dispatch demo_world (Some (JStr (js ''relationship_network''))) (Some (JObj []))
        = (report demo_world (js ''getEntityRelationshipNetwork'') [JNull], demo_world)
   \<and> js ''failed'' \<notin> set (statuses_written analytics_job_state_machine)"
proof -
  have "fst (executeAnalyticsOperation demo_world (Some (JStr (js ''custom_complex_query''))) (Some (JObj [])))
      = Failure \<lparr>fr_operation = Some (JStr (js ''custom_complex_query'')),
           fr_operationId = js ''custom_complex_query_17'', fr_executionTime = js ''1ms'',
           fr_error = Error (js ''Custom query is required for this operation''),
           fr_suggestions = [js ''Check parameters and try again'']\<rparr>"
    by code_simp
  moreover have "js ''Error'' \<noteq> js ''ValidationError''"
    by (simp add: js_def)
  moreover have "dispatch demo_world (Some (JStr (js ''relationship_network''))) (Some (JObj []))
        = (report demo_world (js ''getEntityRelationshipNetwork'') [JNull], demo_world)"
    by (simp add: dispatch_def get_param_def get_prop_def, simp add: js_def)
  moreover have "js ''failed'' \<notin> set (statuses_written analytics_job_state_machine)"
    unfolding statuses_of_state_machine by (simp add: js_def)
  ultimately show ?thesis
    by (simp add: Error_def)
qed

section \<open>Statements that bypass the sandbox\<close>

lemma handler_custom_query_sends:
  assumes "pool_fault w = None"
  shows "executed (snd (handler_custom_query w query)) = executed w @ [(query, None)]"
  using assms by (simp add: handler_custom_query_def query_rows_def split: sum.splits)

text \<open>
  Claim C5 at the data processor's handler: the event \<open>{query: "DROP TABLE entities"}\<close>
  carries a statement that the sandbox validator refuses, and the handler sends it to the
  store as it is.
\<close>

theorem unvalidated_query_executed:
  "validateCustomQuery (JStr (js ''DROP TABLE entities''))
     = Some (Error (js ''Query contains forbidden operations''))
   \<and> executed (snd (handler_custom_query demo_world (JStr (js ''DROP TABLE entities''))))
     = [(JStr (js ''DROP TABLE entities''), None)]
   \<and> statusCode (fst (handler_custom_query demo_world (JStr (js ''DROP TABLE entities'')))) = 200"
proof -
  have "validateCustomQuery (JStr (js ''DROP TABLE entities''))
     = Some (Error (js ''Query contains forbidden operations''))"
    by code_simp
  moreover have "pool_fault demo_world = None" "executed demo_world = []"
    by (simp_all add: demo_world_def world_reporting_def)
  moreover have "statusCode (fst (handler_custom_query demo_world (JStr (js ''DROP TABLE entities'')))) = 200"
    by (simp add: handler_custom_query_def query_rows_def demo_world_def world_reporting_def)
  ultimately show ?thesis
    by (simp add: handler_custom_query_sends)
qed

section \<open>Job status updates\<close>

text \<open>
  Claim C7 at a forward write, such as the first step of the workflow moving a submitted
  job to \<open>running\<close>.  The command that \<open>updateJobStatus\<close> sends has the update expression
  \<open>SET SET #status = :status\<close>, with the keyword twice; it binds \<open>:status\<close> not to the status
  string but to a map holding it, the value being wrapped by hand and again by
  \<open>marshall\<close>; and it carries no condition.  Whatever the arguments, no command with a
  condition on the stored status is ever sent.
\<close>

theorem status_update_command:
  "updateJobStatus tableName jobId status [] =
     Inr \<lparr>TableName = tableName,
          Key = [(js ''PK'', AttrS (js ''JOB#'' @ jobId)), (js ''SK'', AttrS (js ''METADATA''))],
          UpdateExpression = js ''SET SET #status = :status'',
          ExpressionAttributeNames = [(js ''#status'', js ''status'')],
          ExpressionAttributeValues = [(js '':status'', AttrM [(js ''S'', AttrS status)])],
          ConditionExpression = None\<rparr>
   \<and> case_sum (\<lambda>e. None) ConditionExpression (updateJobStatus tableName jobId status additionalData) = None"
  by (simp add: updateJobStatus_def updateExpressions_def expressionAttributes_def js_def
        split: sum.splits)

section \<open>Storage keys\<close>

lemma digits_value_snoc: "digits_value (ds @ [d]) = 10 * digits_value ds + (unat d - 48)"
  by (simp add: digits_value_def)

lemma unat_digit_cu: "d < 10 \<Longrightarrow> unat (digit_cu d) = 48 + d"
  unfolding digit_cu_def by (simp only: unat_of_nat) simp

lemma digits_value_decimal: "digits_value (decimal n) = n"
proof (induction n rule: decimal.induct)
  case (1 n)
  show ?case
  proof (cases "n < 10")
    case True
    then show ?thesis
      by (simp add: decimal.simps [of n] digits_value_def unat_digit_cu)
  next
    case False
    with 1 show ?thesis
      by (simp add: decimal.simps [of n] digits_value_snoc unat_digit_cu)
  qed
qed

lemma decimal_inj: "decimal m = decimal n \<Longrightarrow> m = n"
  by (metis digits_value_decimal)

lemma is_digit_digit_cu: "d < 10 \<Longrightarrow> is_digit (digit_cu d)"
  by (simp add: is_digit_def word_le_nat_alt unat_digit_cu)

lemma decimal_digits: "list_all is_digit (decimal n)"
proof (induction n rule: decimal.induct)
  case (1 n)
  show ?case
  proof (cases "n < 10")
    case True
    then show ?thesis
      by (simp add: decimal.simps [of n] is_digit_digit_cu)
  next
    case False
    with 1 show ?thesis
      by (simp add: decimal.simps [of n] is_digit_digit_cu)
  qed
qed

lemma hyphen_not_in_decimal: "0x2D \<notin> set (decimal n)"
proof
  assume "0x2D \<in> set (decimal n)"
  with decimal_digits [of n] have "is_digit 0x2D"
    by (simp add: list_all_iff)
  then show False
    by (simp add: is_digit_def)
qed

lemma split_at_first:
  "xs @ c # a = ys @ c # b \<Longrightarrow> c \<notin> set xs \<Longrightarrow> c \<notin> set ys \<Longrightarrow> xs = ys \<and> a = b"
proof (induction xs arbitrary: ys)
  case Nil
  then show ?case by (cases ys) auto
next
  case (Cons x xs)
  then show ?case by (cases ys) auto
qed

lemma split_at_last:
  assumes "a @ c # xs = b @ c # ys" and "c \<notin> set xs" and "c \<notin> set ys"
  shows "a = b \<and> xs = ys"
proof -
  from assms(1) have "rev (a @ c # xs) = rev (b @ c # ys)"
    by simp
  then have "rev xs @ c # rev a = rev ys @ c # rev b"
    by simp
  from split_at_first [OF this] assms(2,3) show ?thesis
    by simp
qed

lemma s3Key_inj:
  "s3Key op1 t1 = s3Key op2 t2 \<longleftrightarrow> template op1 = template op2 \<and> t1 = t2"
proof
  assume "s3Key op1 t1 = s3Key op2 t2"
  then have "template op1 @ 0x2D # decimal t1 = template op2 @ 0x2D # decimal t2"
    by (simp add: s3Key_def js_def)
  from split_at_last [OF this hyphen_not_in_decimal hyphen_not_in_decimal]
  show "template op1 = template op2 \<and> t1 = t2"
    by (auto dest: decimal_inj)
next
  assume "template op1 = template op2 \<and> t1 = t2"
  then show "s3Key op1 t1 = s3Key op2 t2"
    by (simp add: s3Key_def)
qed

lemma saveLargeResultToS3_writes:
  assumes "saveLargeResultToS3 w result operation startTime = (Inr r, w')"
  shows "s3_objects w' = (s3_objects w)(s3Key operation (clock w (reads w)) \<mapsto>
           JSON_stringify_pretty (resultData operation result (iso w (clock w (Suc (reads w))))))"
  using assms
  by (auto simp: saveLargeResultToS3_def Date_now_def new_Date_toISOString_def PutObject_def
           split: option.splits)

text \<open>
  Claim C9 at two spills of \<open>customer_analysis\<close> whose readings of \<open>Date.now()\<close> fall in
  the same millisecond: both are given the key \<open>results/customer_analysis-17.json\<close> and
  answer with the same \<open>s3Url\<close>, and the second write replaces the blob of the first.
\<close>

theorem spill_key_collision:
  "\<exists>r1 w1 r2 w2.
      saveLargeResultToS3 frozen_world (JArr [JNum 1]) (Some (JStr (js ''customer_analysis''))) 17
        = (Inr (Large r1), w1)
    \<and> saveLargeResultToS3 w1 (JArr [JNum 2]) (Some (JStr (js ''customer_analysis''))) 17
        = (Inr (Large r2), w2)
    \<and> lr_s3Url r1 = lr_s3Url r2
    \<and> lr_s3Url r1 = js ''s3://bucket/results/customer_analysis-17.json''
    \<and> s3_objects w1 (s3Key (Some (JStr (js ''customer_analysis''))) 17)
        = Some (JSON_stringify_pretty (resultData (Some (JStr (js ''customer_analysis''))) (JArr [JNum 1]) (decimal 17)))
    \<and> s3_objects w2 (s3Key (Some (JStr (js ''customer_analysis''))) 17)
        = Some (JSON_stringify_pretty (resultData (Some (JStr (js ''customer_analysis''))) (JArr [JNum 2]) (decimal 17)))
    \<and> JSON_stringify_pretty (resultData (Some (JStr (js ''customer_analysis''))) (JArr [JNum 1]) (decimal 17))
        \<noteq> JSON_stringify_pretty (resultData (Some (JStr (js ''customer_analysis''))) (JArr [JNum 2]) (decimal 17))"
proof -
  let ?op = "Some (JStr (js ''customer_analysis''))"
  have f: "s3_fault frozen_world = None" "clock frozen_world = (\<lambda>n. 17)" "iso frozen_world = decimal"
    "s3Bucket frozen_world = js ''bucket''"
    by (simp_all add: frozen_world_def demo_world_def world_reporting_def)
  from saveLargeResultToS3_ok [OF f(1), of "JArr [JNum 1]" ?op 17]
  obtain r1 w1 where 1: "saveLargeResultToS3 frozen_world (JArr [JNum 1]) ?op 17 = (Inr (Large r1), w1)"
    and w1: "s3_fault w1 = None" "clock w1 = clock frozen_world" "iso w1 = iso frozen_world"
      "s3Bucket w1 = s3Bucket frozen_world"
    and u1: "lr_s3Url r1 = js ''s3://'' @ s3Bucket frozen_world @ js ''/''
                @ s3Key ?op (clock frozen_world (reads frozen_world))"
    by blast
  from saveLargeResultToS3_ok [OF w1(1), of "JArr [JNum 2]" ?op 17]
  obtain r2 w2 where 2: "saveLargeResultToS3 w1 (JArr [JNum 2]) ?op 17 = (Inr (Large r2), w2)"
    and u2: "lr_s3Url r2 = js ''s3://'' @ s3Bucket w1 @ js ''/'' @ s3Key ?op (clock w1 (reads w1))"
    by blast
  have differ: "JSON_stringify_pretty (resultData ?op (JArr [JNum 1]) (decimal 17))
        \<noteq> JSON_stringify_pretty (resultData ?op (JArr [JNum 2]) (decimal 17))"
    by code_simp
  have url: "js ''s3://'' @ js ''bucket'' @ js ''/'' @ s3Key ?op 17
        = js ''s3://bucket/results/customer_analysis-17.json''"
    by code_simp
  from saveLargeResultToS3_writes [OF 1] saveLargeResultToS3_writes [OF 2] 1 2 u1 u2 differ url
  show ?thesis
    by (intro exI [of _ r1] exI [of _ w1] exI [of _ r2] exI [of _ w2]) (simp add: f w1)
qed

section \<open>Reading back what \<open>JSON.stringify\<close> wrote\<close>

subsection \<open>String literals\<close>

lemma unat_of_small: "n < 65536 \<Longrightarrow> unat (of_nat n :: cu) = n"
  by (simp only: unat_of_nat) simp

lemma hex_value_hex_digit:
  assumes "k < 16"
  shows "hex_value (hex_digit k) = Some k"
proof (cases "k < 10")
  case True
  then have "unat (hex_digit k) = 48 + k"
    by (simp add: hex_digit_def unat_of_small del: of_nat_add)
  with True show ?thesis
    by (simp add: hex_value_def word_le_nat_alt)
next
  case False
  with assms have "unat (hex_digit k) = 87 + k"
    by (simp add: hex_digit_def unat_of_small del: of_nat_add)
  with False assms show ?thesis
    by (simp add: hex_value_def word_le_nat_alt)
qed

lemma unat_cu_less: "unat (c :: cu) < 65536"
  using unsigned_less [of c, where ?'a = nat] by simp

lemma nibbles: "4096 * (x div 4096) + 256 * (x div 256 mod 16) + 16 * (x div 16 mod 16) + x mod 16 = (x :: nat)"
proof -
  have "x mod 256 = 16 * (x div 16 mod 16) + x mod 16"
    using mod_mult2_eq [of x 16 16] by simp
  moreover have "x mod 4096 = 256 * (x div 256 mod 16) + x mod 256"
    using mod_mult2_eq [of x 256 16] by simp
  moreover have "x = 4096 * (x div 4096) + x mod 4096"
    by simp
  ultimately show ?thesis
    by linarith
qed

lemma hex4_of_unit:
  "hex4 (hex_digit (unat c div 4096)) (hex_digit (unat c div 256 mod 16))
        (hex_digit (unat c div 16 mod 16)) (hex_digit (unat c mod 16)) = Some (c :: cu)"
proof -
  have "unat c div 4096 < 16"
    using unat_cu_less [of c] by simp
  then show ?thesis
    by (simp add: hex4_def hex_value_hex_digit nibbles)
qed

lemma parse_chars_UnicodeEscape:
  "parse_chars (UnicodeEscape c @ t) = cons_result c (parse_chars t)"
  by (simp add: UnicodeEscape_def hex4_of_unit)

lemma parse_chars_quote_unit:
  "parse_chars (quote_unit c @ t) = cons_result c (parse_chars t)"
  by (simp add: quote_unit_def parse_chars_UnicodeEscape unescape_def)

lemma lead_plain: "is_lead c \<Longrightarrow> c \<noteq> 0x22 \<and> c \<noteq> 0x5C \<and> \<not> c < 0x20"
  by (auto simp: is_lead_def word_le_nat_alt word_less_nat_alt)

lemma trail_plain: "is_trail c \<Longrightarrow> c \<noteq> 0x22 \<and> c \<noteq> 0x5C \<and> \<not> c < 0x20"
  by (auto simp: is_trail_def word_le_nat_alt word_less_nat_alt)

lemma parse_chars_quote_units:
  "parse_chars (quote_units s @ 0x22 # rest) = Some (s, rest)"
proof (induction s rule: quote_units.induct)
  case 1
  then show ?case by simp
next
  case (2 c)
  then show ?case by (simp add: parse_chars_quote_unit cons_result_def)
next
  case (3 c d cs)
  then show ?case
    using lead_plain [of c] trail_plain [of d]
    by (simp add: parse_chars_quote_unit cons_result_def)
qed



subsection \<open>Numbers\<close>

lemma decimal_nonempty: "decimal n \<noteq> []"
  by (subst decimal.simps) simp

lemma digit_cu_zero: "d < 10 \<Longrightarrow> digit_cu d = 0x30 \<longleftrightarrow> d = 0"
proof
  assume "d < 10" and "digit_cu d = 0x30"
  then have "unat (0x30 :: cu) = 48 + d"
    using unat_digit_cu [of d] by simp
  then show "d = 0"
    by simp
next
  assume "d = 0"
  then show "digit_cu d = 0x30"
    by (simp add: digit_cu_def)
qed

lemma hd_decimal: "0 < n \<Longrightarrow> hd (decimal n) \<noteq> 0x30"
proof (induction n rule: decimal.induct)
  case (1 n)
  show ?case
  proof (cases "n < 10")
    case True
    with 1 show ?thesis
      by (simp add: decimal.simps [of n] digit_cu_zero)
  next
    case False
    then have "0 < n div 10" by simp
    with 1 False show ?thesis
      by (simp add: decimal.simps [of n] decimal_nonempty)
  qed
qed

lemma length_decimal: "1 < length (decimal n) \<Longrightarrow> 0 < n"
  by (cases "n = 0") (simp_all add: decimal.simps [of 0])

lemma takeWhile_digits:
  "list_all is_digit ds \<Longrightarrow> delimited rest \<Longrightarrow> takeWhile is_digit (ds @ rest) = ds"
  by (cases rest) (auto simp: delimited_def list_all_iff takeWhile_append2)

lemma dropWhile_digits:
  "list_all is_digit ds \<Longrightarrow> delimited rest \<Longrightarrow> dropWhile is_digit (ds @ rest) = rest"
  by (cases rest) (auto simp: delimited_def list_all_iff dropWhile_append2)

lemma delimited_not_fraction:
  "delimited rest \<Longrightarrow> \<not> (rest \<noteq> [] \<and> (hd rest = 0x2E \<or> hd rest = 0x65 \<or> hd rest = 0x45))"
  by (cases rest) (auto simp: delimited_def)

lemma parse_number_decimal:
  assumes "delimited rest"
  shows "parse_number (decimal n @ rest) = Some (JNum (int n), rest)"
proof -
  have "decimal n @ rest \<noteq> []" "hd (decimal n @ rest) \<noteq> 0x2D"
    using decimal_nonempty [of n] hyphen_not_in_decimal [of n]
    by (auto simp: hd_append) (metis hd_in_set)
  moreover have "\<not> (1 < length (decimal n) \<and> hd (decimal n) = 0x30)"
    using hd_decimal [of n] length_decimal [of n] by blast
  ultimately show ?thesis
    using assms decimal_nonempty [of n] delimited_not_fraction [OF assms]
    by (simp add: parse_number_def Let_def takeWhile_digits dropWhile_digits decimal_digits
          digits_value_decimal)
qed

lemma parse_number_show_int:
  assumes "delimited rest"
  shows "parse_number (show_int i @ rest) = Some (JNum i, rest)"
proof (cases "i < 0")
  case False
  then show ?thesis
    using parse_number_decimal [OF assms, of "nat i"] by (simp add: show_int_def)
next
  case True
  have "\<not> (1 < length (decimal (nat (- i))) \<and> hd (decimal (nat (- i))) = 0x30)"
    using hd_decimal [of "nat (- i)"] length_decimal [of "nat (- i)"] by auto
  with True show ?thesis
    using assms decimal_nonempty [of "nat (- i)"] delimited_not_fraction [OF assms]
    by (simp add: show_int_def js_def parse_number_def Let_def takeWhile_digits dropWhile_digits
          decimal_digits digits_value_decimal)
qed



subsection \<open>Whitespace and first characters\<close>

lemma skip_ws_append:
  "list_all is_ws ws \<Longrightarrow> \<not> is_ws c \<Longrightarrow> skip_ws (ws @ c # t) = c # t"
  by (induction ws) (simp_all add: skip_ws_def)

lemma skip_ws_Cons: "\<not> is_ws c \<Longrightarrow> skip_ws (c # t) = c # t"
  by (simp add: skip_ws_def)

lemma skip_ws_all: "list_all is_ws ws \<Longrightarrow> skip_ws ws = []"
  by (induction ws) (simp_all add: skip_ws_def)

lemma ws_newline_indent: "list_all is_ws (newline_indent i)"
  by (simp add: newline_indent_def is_ws_def list_all_iff)

lemma delimited_after_ws:
  assumes "list_all is_ws pad" and "c = 0x5D \<or> c = 0x7D \<or> c = 0x2C"
  shows "delimited (pad @ c # rest)"
proof (cases pad)
  case Nil
  with assms(2) show ?thesis
    by (auto simp: delimited_def is_digit_def)
next
  case (Cons p ps)
  with assms(1) have "is_ws p" by simp
  then have "\<not> is_digit p \<and> p \<noteq> 0x2E \<and> p \<noteq> 0x65 \<and> p \<noteq> 0x45"
    by (auto simp: is_ws_def is_digit_def)
  with Cons show ?thesis
    by (simp add: delimited_def)
qed

lemma opener_plain: "opener c \<Longrightarrow> \<not> is_ws c \<and> c \<noteq> 0x5D \<and> c \<noteq> 0x7D \<and> c \<noteq> 0x2C"
  by (auto simp: opener_def is_ws_def is_digit_def)

lemma show_int_head: "\<exists>c t. show_int i = c # t \<and> (c = 0x2D \<or> is_digit c)"
proof (cases "i < 0")
  case True
  then show ?thesis by (simp add: show_int_def js_def)
next
  case False
  obtain c t where ct: "decimal (nat i) = c # t"
    using decimal_nonempty [of "nat i"] by (cases "decimal (nat i)") auto
  with decimal_digits [of "nat i"] have "is_digit c" by simp
  with False ct show ?thesis by (simp add: show_int_def)
qed

lemma wrap_head: "\<exists>t. wrap opn cls g i partial = opn # t"
  by (simp add: wrap_def)

lemma stringify_head: "\<exists>c t. stringify g i v = c # t \<and> opener c"
proof (cases v)
  case (JNum n)
  with show_int_head [of n] show ?thesis
    by (auto simp: opener_def)
next
  case (JArr xs)
  with wrap_head [of "0x5B" "0x5D" g i "stringify_elements g (i + g) xs"] show ?thesis
    by (auto simp: opener_def)
next
  case (JObj kvs)
  with wrap_head [of "0x7B" "0x7D" g i "stringify_members g (i + g) kvs"] show ?thesis
    by (auto simp: opener_def)
qed (auto simp: opener_def js_def QuoteJSONString_def)

lemma stringify_nonempty: "0 < length (stringify g i v)"
  using stringify_head [of g i v] by auto

subsection \<open>One step of the reader\<close>

lemma parse_value_atom:
  assumes "list_all is_ws ws" and "delimited rest"
  shows "parse_value (Suc n) (ws @ js ''null'' @ rest) = Some (JNull, rest)"
    and "parse_value (Suc n) (ws @ js ''true'' @ rest) = Some (JBool True, rest)"
    and "parse_value (Suc n) (ws @ js ''false'' @ rest) = Some (JBool False, rest)"
    and "parse_value (Suc n) (ws @ QuoteJSONString s @ rest) = Some (JStr s, rest)"
  using assms
  by (simp_all add: js_def QuoteJSONString_def skip_ws_append is_ws_def parse_keyword_def
        parse_chars_quote_units)

lemma parse_value_number:
  assumes "list_all is_ws ws" and "delimited rest"
  shows "parse_value (Suc n) (ws @ show_int i @ rest) = Some (JNum i, rest)"
proof -
  from show_int_head [of i] obtain c t where ct: "show_int i = c # t" "c = 0x2D \<or> is_digit c"
    by blast
  then have c: "\<not> is_ws c" "c \<noteq> 0x5B" "c \<noteq> 0x7B" "c \<noteq> 0x22" "c \<noteq> 0x74" "c \<noteq> 0x66" "c \<noteq> 0x6E"
    by (auto simp: is_ws_def is_digit_def)
  have "skip_ws (ws @ show_int i @ rest) = c # t @ rest"
    using assms(1) c(1) ct(1) by (simp add: skip_ws_append)
  moreover have "parse_number (c # t @ rest) = Some (JNum i, rest)"
    using parse_number_show_int [OF assms(2), of i] ct(1) by simp
  ultimately show ?thesis
    using c by simp
qed

lemma parse_value_empty:
  assumes "list_all is_ws ws"
  shows "parse_value (Suc n) (ws @ [0x5B, 0x5D] @ rest) = Some (JArr [], rest)"
    and "parse_value (Suc n) (ws @ [0x7B, 0x7D] @ rest) = Some (JObj [], rest)"
  using assms by (simp_all add: skip_ws_append skip_ws_Cons is_ws_def)

lemma parse_value_array:
  assumes "list_all is_ws ws" and "list_all is_ws pad" and "opener c"
  shows "parse_value (Suc n) (ws @ 0x5B # pad @ c # t) =
           (case parse_elements n (c # t) of None \<Rightarrow> None | Some (xs, r) \<Rightarrow> Some (JArr xs, r))"
  using assms opener_plain [OF assms(3)]
  by (simp add: skip_ws_append skip_ws_append [where ws = "[]", simplified] is_ws_def)

lemma parse_value_object:
  assumes "list_all is_ws ws" and "list_all is_ws pad" and "opener c"
  shows "parse_value (Suc n) (ws @ 0x7B # pad @ c # t) =
           (case parse_members n (c # t) of None \<Rightarrow> None | Some (kvs, r) \<Rightarrow> Some (object_of_members kvs, r))"
  using assms opener_plain [OF assms(3)]
  by (simp add: skip_ws_append skip_ws_append [where ws = "[]", simplified] is_ws_def)

subsection \<open>Objects without repeated names\<close>

lemma set_prop_fresh: "k \<notin> fst ` set acc \<Longrightarrow> set_prop k v acc = acc @ [(k, v)]"
  by (induction acc) auto

lemma foldl_set_prop:
  "distinct (map fst (acc @ kvs)) \<Longrightarrow> foldl (\<lambda>acc (k, v). set_prop k v acc) acc kvs = acc @ kvs"
proof (induction kvs arbitrary: acc)
  case Nil
  then show ?case by simp
next
  case (Cons kv kvs)
  obtain k v where kv: "kv = (k, v)" by (cases kv)
  with Cons.prems have "k \<notin> fst ` set acc" by auto
  then have "set_prop k v acc = acc @ [(k, v)]" by (rule set_prop_fresh)
  moreover from Cons.prems kv have "distinct (map fst ((acc @ [(k, v)]) @ kvs))" by simp
  ultimately show ?case
    using Cons.IH [of "acc @ [(k, v)]"] kv by simp
qed

lemma object_of_members_distinct:
  "distinct (map fst kvs) \<Longrightarrow> object_of_members kvs = JObj kvs"
  using foldl_set_prop [of "[]" kvs] by (simp add: object_of_members_def)



subsection \<open>Values\<close>

lemma ws_pads: "list_all is_ws (pad_open g i)" "list_all is_ws (pad_close g i)"
  by (simp_all add: pad_open_def pad_close_def ws_newline_indent)

lemma wrap_nonempty:
  "partial \<noteq> [] \<Longrightarrow>
   wrap opn cls g i partial =
     opn # pad_open g i @ join (0x2C # pad_open g i) partial @ pad_close g i @ [cls]"
  by (simp add: wrap_def pad_open_def pad_close_def)

lemma join_head:
  assumes "p = c # t"
  shows "\<exists>t'. join sep (p # ps) = c # t'"
  using assms by (cases ps) simp_all

lemma elements_head:
  "xs \<noteq> [] \<Longrightarrow> \<exists>c t. join sep (stringify_elements g i xs) = c # t \<and> opener c"
proof (cases xs)
  case Nil
  assume "xs \<noteq> []"
  with Nil show ?thesis by simp
next
  case (Cons x xs')
  from stringify_head [of g i x] obtain c t where ct: "stringify g i x = c # t" "opener c"
    by blast
  from join_head [OF ct(1), of sep "stringify_elements g i xs'"] ct(2) Cons
  show ?thesis by auto
qed

lemma members_head:
  "kvs \<noteq> [] \<Longrightarrow> \<exists>t. join sep (stringify_members g i kvs) = 0x22 # t"
proof (cases kvs)
  case Nil
  assume "kvs \<noteq> []"
  with Nil show ?thesis by simp
next
  case (Cons kv kvs')
  obtain k v where kv: "kv = (k, v)" by (cases kv)
  have "\<exists>t. QuoteJSONString k @ [0x3A] @ (if g = 0 then [] else [0x20]) @ stringify g i v = 0x22 # t"
    by (simp add: QuoteJSONString_def)
  then obtain t where "QuoteJSONString k @ [0x3A] @ (if g = 0 then [] else [0x20]) @ stringify g i v = 0x22 # t"
    by blast
  from join_head [OF this, of sep "stringify_members g i kvs'"] Cons kv
  show ?thesis by auto
qed

lemma elements_nonempty [simp]: "stringify_elements g i xs = [] \<longleftrightarrow> xs = []"
  by (cases xs) simp_all

lemma members_nonempty [simp]: "stringify_members g i kvs = [] \<longleftrightarrow> kvs = []"
  by (cases kvs) auto

lemma not_ws: "\<not> is_ws 0x5D" "\<not> is_ws 0x7D" "\<not> is_ws 0x2C" "\<not> is_ws 0x3A" "\<not> is_ws 0x22"
  by (simp_all add: is_ws_def)

lemma read_back:
  fixes v :: json and xs :: "json list" and kvs :: "(jsstring \<times> json) list"
  shows "length (stringify g i v) \<le> n \<Longrightarrow> list_all is_ws ws \<Longrightarrow> delimited rest \<Longrightarrow> wf_json v \<Longrightarrow>
           parse_value n (ws @ stringify g i v @ rest) = Some (v, rest)"
    and "xs \<noteq> [] \<Longrightarrow> length (join (0x2C # pad) (stringify_elements g i xs)) < n \<Longrightarrow>
           list_all is_ws ws \<Longrightarrow> list_all is_ws pad \<Longrightarrow> list_all is_ws padc \<Longrightarrow> wf_elements xs \<Longrightarrow>
           parse_elements n (ws @ join (0x2C # pad) (stringify_elements g i xs) @ padc @ 0x5D # rest)
             = Some (xs, rest)"
    and "kvs \<noteq> [] \<Longrightarrow> length (join (0x2C # pad) (stringify_members g i kvs)) < n \<Longrightarrow>
           list_all is_ws ws \<Longrightarrow> list_all is_ws pad \<Longrightarrow> list_all is_ws padc \<Longrightarrow> wf_members kvs \<Longrightarrow>
           parse_members n (ws @ join (0x2C # pad) (stringify_members g i kvs) @ padc @ 0x7D # rest)
             = Some (kvs, rest)"
proof (induction v and xs and kvs
       arbitrary: n ws rest g i and n ws rest g i pad padc and n ws rest g i pad padc
       rule: wf_json_wf_elements_wf_members.induct)
  case (1 xs)
  show ?case
  proof (cases "xs = []")
    case True
    from "1.prems"(1) True obtain m where "n = Suc m"
      by (cases n) (simp_all add: wrap_def)
    with True "1.prems"(2) show ?thesis
      using parse_value_empty(1) [of ws m rest] by (simp add: wrap_def)
  next
    case False
    let ?partial = "stringify_elements g (i + g) xs"
    let ?j = "join (0x2C # pad_open g i) ?partial"
    have shape: "stringify g i (JArr xs) = 0x5B # pad_open g i @ ?j @ pad_close g i @ [0x5D]"
      using False by (simp add: wrap_nonempty)
    with "1.prems"(1) obtain m where m: "n = Suc m" "length ?j < m"
      by (cases n) simp_all
    from elements_head [OF False, of "0x2C # pad_open g i" g "i + g"]
    obtain c t where ct: "?j = c # t" "opener c"
      by blast
    have "parse_elements m ([] @ ?j @ pad_close g i @ 0x5D # rest) = Some (xs, rest)"
      using "1.IH" [OF False m(2), of "[]" "pad_close g i" rest] "1.prems"(4) ws_pads [of g i]
      by simp
    then have "parse_elements m (c # t @ pad_close g i @ 0x5D # rest) = Some (xs, rest)"
      using ct(1) by simp
    with parse_value_array [OF "1.prems"(2) ws_pads(1) [of g i] ct(2),
           where n = m and t = "t @ pad_close g i @ 0x5D # rest"]
    show ?thesis
      using shape ct(1) m(1) by simp
  qed
next
  case (2 kvs)
  show ?case
  proof (cases "kvs = []")
    case True
    from "2.prems"(1) True obtain m where "n = Suc m"
      by (cases n) (simp_all add: wrap_def)
    with True "2.prems"(2) show ?thesis
      using parse_value_empty(2) [of ws m rest] by (simp add: wrap_def)
  next
    case False
    let ?partial = "stringify_members g (i + g) kvs"
    let ?j = "join (0x2C # pad_open g i) ?partial"
    have shape: "stringify g i (JObj kvs) = 0x7B # pad_open g i @ ?j @ pad_close g i @ [0x7D]"
      using False by (simp add: wrap_nonempty)
    with "2.prems"(1) obtain m where m: "n = Suc m" "length ?j < m"
      by (cases n) simp_all
    from members_head [OF False, of "0x2C # pad_open g i" g "i + g"]
    obtain t where ct: "?j = 0x22 # t"
      by blast
    have op: "opener 0x22"
      by (simp add: opener_def)
    from "2.prems"(4) have wf: "distinct (map fst kvs)" "wf_members kvs"
      by simp_all
    have "parse_members m ([] @ ?j @ pad_close g i @ 0x7D # rest) = Some (kvs, rest)"
      using "2.IH" [OF False m(2), of "[]" "pad_close g i" rest] wf(2) ws_pads [of g i]
      by simp
    then have "parse_members m (0x22 # t @ pad_close g i @ 0x7D # rest) = Some (kvs, rest)"
      using ct by simp
    with parse_value_object [OF "2.prems"(2) ws_pads(1) [of g i] op,
           where n = m and t = "t @ pad_close g i @ 0x7D # rest"]
    show ?thesis
      using shape ct m(1) wf(1) by (simp add: object_of_members_distinct)
  qed
next
  case 4
  then obtain m where "n = Suc m"
    by (cases n) (simp_all add: js_def)
  with "4.prems" show ?case
    using parse_value_atom(1) [of ws rest m] by simp
next
  case (5 b)
  then obtain m where "n = Suc m"
    by (cases n) (simp_all add: js_def split: if_splits)
  with "5.prems" show ?case
    using parse_value_atom(2,3) [of ws rest m] by simp
next
  case (3 k)
  from "3.prems"(1) stringify_nonempty [of g i "JNum k"] obtain m where "n = Suc m"
    by (cases n) simp_all
  with "3.prems" show ?case
    using parse_value_number [of ws rest m k] by simp
next
  case (6 s)
  then obtain m where "n = Suc m"
    by (cases n) (simp_all add: QuoteJSONString_def)
  with "6.prems" show ?case
    using parse_value_atom(4) [of ws rest m s] by simp
next
  case 7
  then show ?case by simp
next
  case (8 x xs)
  let ?sep = "0x2C # pad"
  show ?case
  proof (cases "xs = []")
    case True
    from "8.prems"(2) True obtain m where m: "n = Suc m" "length (stringify g i x) \<le> m"
      by (cases n) simp_all
    have d: "delimited (padc @ 0x5D # rest)"
      using "8.prems"(5) by (simp add: delimited_after_ws)
    from "8.prems"(6) have "wf_json x" by simp
    from "8.IH"(1) [OF m(2) "8.prems"(3) d this]
    have "parse_value m (ws @ stringify g i x @ padc @ 0x5D # rest) = Some (x, padc @ 0x5D # rest)" .
    moreover have "skip_ws (padc @ 0x5D # rest) = 0x5D # rest"
      using "8.prems"(5) by (simp add: skip_ws_append not_ws)
    ultimately show ?thesis
      using True m(1) by simp
  next
    case False
    then obtain y ys where xs: "xs = y # ys"
      by (cases xs) auto
    let ?tail = "join ?sep (stringify_elements g i xs) @ padc @ 0x5D # rest"
    have j: "join ?sep (stringify_elements g i (x # xs))
               = stringify g i x @ 0x2C # pad @ join ?sep (stringify_elements g i xs)"
      using xs by simp
    with "8.prems"(2) obtain m where m: "n = Suc m" "length (stringify g i x) \<le> m"
      "length (join ?sep (stringify_elements g i xs)) < m"
      by (cases n) simp_all
    have d: "delimited ([] @ 0x2C # pad @ ?tail)"
      by (rule delimited_after_ws) simp_all
    from "8.prems"(6) have wf: "wf_json x" "wf_elements xs" by simp_all
    from "8.IH"(1) [OF m(2) "8.prems"(3) d wf(1)]
    have "parse_value m (ws @ stringify g i x @ 0x2C # pad @ ?tail) = Some (x, 0x2C # pad @ ?tail)"
      by simp
    moreover have "skip_ws (0x2C # pad @ ?tail) = 0x2C # pad @ ?tail"
      by (simp add: skip_ws_Cons not_ws)
    moreover from "8.IH"(2) [OF False m(3) "8.prems"(4) "8.prems"(4) "8.prems"(5) wf(2)]
    have "parse_elements m (pad @ ?tail) = Some (xs, rest)" .
    ultimately show ?thesis
      using j m(1) by simp
  qed
next
  case 9
  then show ?case by simp
next
  case (10 k v kvs)
  let ?sep = "0x2C # pad"
  let ?sp = "if g = 0 then [] else [0x20 :: cu]"
  let ?member = "QuoteJSONString k @ [0x3A] @ ?sp @ stringify g i v"
  have sp: "list_all is_ws ?sp"
    by (simp add: is_ws_def)
  have key: "parse_chars (quote_units k @ 0x22 # t) = Some (k, t)" for t
    by (rule parse_chars_quote_units)
  have step: "parse_members (Suc m) (ws @ ?member @ tail) =
      (case parse_value m (?sp @ stringify g i v @ tail) of
         None \<Rightarrow> None
       | Some (v', r3) \<Rightarrow>
          (case skip_ws r3 of
             [] \<Rightarrow> None
           | d # r4 \<Rightarrow>
              if d = 0x2C then
                (case parse_members m r4 of
                   None \<Rightarrow> None
                 | Some (kvs', r5) \<Rightarrow> Some ((k, v') # kvs', r5))
              else if d = 0x7D then Some ([(k, v')], r4)
              else None))" for m tail
    using "10.prems"(3) key [of "0x3A # ?sp @ stringify g i v @ tail"]
    by (simp add: QuoteJSONString_def skip_ws_append skip_ws_Cons not_ws)
  show ?case
  proof (cases "kvs = []")
    case True
    from "10.prems"(2) True obtain m where m: "n = Suc m" "length (stringify g i v) \<le> m"
      by (cases n) simp_all
    have d: "delimited (padc @ 0x7D # rest)"
      using "10.prems"(5) by (simp add: delimited_after_ws)
    from "10.prems"(6) have "wf_json v" by simp
    from "10.IH"(1) [OF m(2) sp d this]
    have "parse_value m (?sp @ stringify g i v @ padc @ 0x7D # rest) = Some (v, padc @ 0x7D # rest)" .
    moreover have "skip_ws (padc @ 0x7D # rest) = 0x7D # rest"
      using "10.prems"(5) by (simp add: skip_ws_append not_ws)
    ultimately show ?thesis
      using True m(1) step [of m "padc @ 0x7D # rest"] by simp
  next
    case False
    then obtain kv' kvs' where kvs: "kvs = kv' # kvs'"
      by (cases kvs) auto
    let ?tail = "join ?sep (stringify_members g i kvs) @ padc @ 0x7D # rest"
    have j: "join ?sep (stringify_members g i ((k, v) # kvs))
               = ?member @ 0x2C # pad @ join ?sep (stringify_members g i kvs)"
      using kvs by (cases kv') simp
    with "10.prems"(2) obtain m where m: "n = Suc m" "length (stringify g i v) \<le> m"
      "length (join ?sep (stringify_members g i kvs)) < m"
      by (cases n) simp_all
    have d: "delimited ([] @ 0x2C # pad @ ?tail)"
      by (rule delimited_after_ws) simp_all
    from "10.prems"(6) have wf: "wf_json v" "wf_members kvs" by simp_all
    from "10.IH"(1) [OF m(2) sp d wf(1)]
    have "parse_value m (?sp @ stringify g i v @ 0x2C # pad @ ?tail) = Some (v, 0x2C # pad @ ?tail)"
      by simp
    moreover have "skip_ws (0x2C # pad @ ?tail) = 0x2C # pad @ ?tail"
      by (simp add: skip_ws_Cons not_ws)
    moreover from "10.IH"(2) [OF False m(3) "10.prems"(4) "10.prems"(4) "10.prems"(5) wf(2)]
    have "parse_members m (pad @ ?tail) = Some (kvs, rest)" .
    ultimately show ?thesis
      using j m(1) step [of m "0x2C # pad @ ?tail"] by simp
  qed
qed

lemma JSON_parse_stringify:
  assumes "wf_json v"
  shows "JSON_parse (stringify g 0 v) = Some v"
proof -
  have "parse_value (Suc (length (stringify g 0 v))) ([] @ stringify g 0 v @ []) = Some (v, [])"
    by (rule read_back(1)) (simp_all add: delimited_def assms)
  then show ?thesis
    by (simp add: JSON_parse_def skip_ws_def)
qed



section \<open>The round trip through the bucket\<close>

lemma last_segment_plain: "0x2F \<notin> set s \<Longrightarrow> last_segment acc s = acc @ s"
  by (induction s arbitrary: acc) simp_all

lemma last_segment_results:
  "0x2F \<notin> set s \<Longrightarrow> last_segment [] (js ''results/'' @ s) = s"
  by (simp add: js_def last_segment_plain)

lemma slash_not_in_decimal: "0x2F \<notin> set (decimal n)"
proof
  assume "0x2F \<in> set (decimal n)"
  with decimal_digits [of n] have "is_digit 0x2F"
    by (simp add: list_all_iff)
  then show False
    by (simp add: is_digit_def)
qed

lemma registered_no_slash: "name \<in> set registered_operations \<Longrightarrow> 0x2F \<notin> set name"
  by (auto simp: registered_operations_def js_def)

lemma file_name_of_key:
  assumes "name \<in> set registered_operations"
  shows "s3Key (Some (JStr name)) t = js ''results/'' @ name @ js ''-'' @ decimal t @ js ''.json''"
    and "last_segment [] (s3Key (Some (JStr name)) t) = name @ js ''-'' @ decimal t @ js ''.json''"
proof -
  show k: "s3Key (Some (JStr name)) t = js ''results/'' @ name @ js ''-'' @ decimal t @ js ''.json''"
    by (simp add: s3Key_def template_def)
  have "0x2F \<notin> set (name @ js ''-'' @ decimal t @ js ''.json'')"
    using registered_no_slash [OF assms] slash_not_in_decimal [of t] by (simp add: js_def)
  then show "last_segment [] (s3Key (Some (JStr name)) t) = name @ js ''-'' @ decimal t @ js ''.json''"
    unfolding k by (rule last_segment_results)
qed

lemma plain_names:
  "\<not> integer_name (js ''operation'')" "\<not> integer_name (js ''data'')"
  "\<not> integer_name (js ''generatedAt'')" "\<not> integer_name (js ''recordCount'')"
  "\<not> integer_name (js ''success'')" "\<not> integer_name (js ''metadata'')"
  "\<not> integer_name (js ''source'')"
  by (simp_all add: integer_name_def js_def is_digit_def)

lemma wf_count: "length (rows :: json list) < 4294967296 \<Longrightarrow> wf_json (JNum (int (length rows)))"
  by (simp add: MAX_SAFE_INTEGER_def)

lemma resultData_rows:
  "resultData (Some (JStr name)) (JArr rows) generatedAt =
     JObj [(js ''operation'', JStr name), (js ''data'', JArr rows),
           (js ''generatedAt'', JStr generatedAt), (js ''recordCount'', JNum (int (length rows)))]"
  by (simp add: resultData_def num_opt_def)

lemma stored_text_read_back:
  assumes "wf_json (JArr rows)"
  shows "JSON_parse (JSON_stringify_pretty (resultData (Some (JStr name)) (JArr rows) generatedAt))
           = Some (resultData (Some (JStr name)) (JArr rows) generatedAt)"
proof -
  have "wf_json (resultData (Some (JStr name)) (JArr rows) generatedAt)"
    unfolding resultData_rows using assms wf_count [of rows]
    by (simp add: plain_names) (simp add: js_def)
  then show ?thesis
    unfolding JSON_stringify_pretty_def by (rule JSON_parse_stringify)
qed

lemma download_of_stored:
  assumes "s3_fault w = None" and "key \<noteq> []"
    and "s3_objects w (js ''results/'' @ key)
           = Some (JSON_stringify_pretty (resultData (Some (JStr name)) (JArr rows) generatedAt))"
    and "wf_json (JArr rows)"
  shows "handleS3Download w (download_event key) =
           \<lparr>statusCode = 200, headers = download_headers,
            body = JSON_stringify (JObj
              [(js ''success'', JBool True),
               (js ''data'', JArr rows),
               (js ''metadata'', JObj
                  [(js ''operation'', JStr name),
                   (js ''generatedAt'', JStr generatedAt),
                   (js ''recordCount'', JNum (int (length rows))),
                   (js ''source'', JStr (js ''s3''))])])\<rparr>"
proof -
  let ?stored = "resultData (Some (JStr name)) (JArr rows) generatedAt"
  have key: "optional_chain (pathParameters (download_event key)) (js ''key'') = Some key"
    by (simp add: optional_chain_def download_event_def)
  have got: "GetObject w (js ''results/'' @ key) = Inr (JSON_stringify_pretty ?stored)"
    using assms(1,3) by (simp add: GetObject_def)
  have parsed: "JSON_parse_throwing (JSON_stringify_pretty ?stored) = Inr ?stored"
    using stored_text_read_back [OF assms(4), of name generatedAt] by (simp add: JSON_parse_throwing_def)
  have props: "get_prop ?stored (js ''data'') = Inr (Some (JArr rows))"
    "get_prop ?stored (js ''operation'') = Inr (Some (JStr name))"
    "get_prop ?stored (js ''generatedAt'') = Inr (Some (JStr generatedAt))"
    "get_prop ?stored (js ''recordCount'') = Inr (Some (JNum (int (length rows))))"
    unfolding resultData_rows by (simp_all add: get_prop_def js_def)
  have "download_try w (download_event key) =
           Inr \<lparr>statusCode = 200, headers = download_headers,
            body = JSON_stringify (JObj
              [(js ''success'', JBool True),
               (js ''data'', JArr rows),
               (js ''metadata'', JObj
                  [(js ''operation'', JStr name),
                   (js ''generatedAt'', JStr generatedAt),
                   (js ''recordCount'', JNum (int (length rows))),
                   (js ''source'', JStr (js ''s3''))])])\<rparr>"
    unfolding download_try_def key using assms(2) by (simp add: got parsed props)
  then show ?thesis
    by (simp add: handleS3Download_def)
qed

lemma answer_read_back:
  assumes "wf_json (JArr rows)"
  shows "JSON_parse (JSON_stringify (JObj
              [(js ''success'', JBool True),
               (js ''data'', JArr rows),
               (js ''metadata'', JObj
                  [(js ''operation'', JStr name),
                   (js ''generatedAt'', JStr generatedAt),
                   (js ''recordCount'', JNum (int (length rows))),
                   (js ''source'', JStr (js ''s3''))])]))
         = Some (JObj
              [(js ''success'', JBool True),
               (js ''data'', JArr rows),
               (js ''metadata'', JObj
                  [(js ''operation'', JStr name),
                   (js ''generatedAt'', JStr generatedAt),
                   (js ''recordCount'', JNum (int (length rows))),
                   (js ''source'', JStr (js ''s3''))])])"
proof -
  have "wf_json (JObj
              [(js ''success'', JBool True),
               (js ''data'', JArr rows),
               (js ''metadata'', JObj
                  [(js ''operation'', JStr name),
                   (js ''generatedAt'', JStr generatedAt),
                   (js ''recordCount'', JNum (int (length rows))),
                   (js ''source'', JStr (js ''s3''))])])"
    using assms wf_count [of rows] by (simp add: plain_names) (simp add: js_def)
  then show ?thesis
    unfolding JSON_stringify_def by (rule JSON_parse_stringify)
qed

text \<open>
  Claim C2.  A spill of a row set by \<open>saveLargeResultToS3\<close>, the write succeeding, returns
  a \<open>downloadUrl\<close> \<open>/download/<key>\<close> and the record count; \<open>handleS3Download\<close> on that key, in
  the state the spill leaves, answers with status 200 and a body that is the JSON text of
  an object whose \<open>data\<close> are the rows, all of them and in their order, and whose
  \<open>recordCount\<close> is their number.
\<close>

theorem spilled_rows_read_back:
  assumes "s3_fault w = None" and "name \<in> set registered_operations" and "wf_json (JArr rows)"
  shows "\<exists>r w' key generatedAt.
      saveLargeResultToS3 w (JArr rows) (Some (JStr name)) startTime = (Inr (Large r), w')
    \<and> lr_downloadUrl r = js ''/download/'' @ key
    \<and> lr_recordCount r = Some (length rows)
    \<and> handleS3Download w' (download_event key) =
         \<lparr>statusCode = 200, headers = download_headers,
          body = JSON_stringify (JObj
            [(js ''success'', JBool True),
             (js ''data'', JArr rows),
             (js ''metadata'', JObj
                [(js ''operation'', JStr name),
                 (js ''generatedAt'', JStr generatedAt),
                 (js ''recordCount'', JNum (int (length rows))),
                 (js ''source'', JStr (js ''s3''))])])\<rparr>
    \<and> JSON_parse (body (handleS3Download w' (download_event key))) =
         Some (JObj
            [(js ''success'', JBool True),
             (js ''data'', JArr rows),
             (js ''metadata'', JObj
                [(js ''operation'', JStr name),
                 (js ''generatedAt'', JStr generatedAt),
                 (js ''recordCount'', JNum (int (length rows))),
                 (js ''source'', JStr (js ''s3''))])])"
proof -
  let ?op = "Some (JStr name)"
  let ?t = "clock w (reads w)"
  let ?key = "name @ js ''-'' @ decimal ?t @ js ''.json''"
  let ?g = "iso w (clock w (Suc (reads w)))"
  from saveLargeResultToS3_ok [OF assms(1), of "JArr rows" ?op startTime]
  obtain r w' where run: "saveLargeResultToS3 w (JArr rows) ?op startTime = (Inr (Large r), w')"
    and count: "lr_recordCount r = js_length (JArr rows)"
    and url: "lr_downloadUrl r = js ''/download/'' @ last_segment [] (s3Key ?op ?t)"
    and objects: "s3_objects w' = (s3_objects w)(s3Key ?op ?t \<mapsto>
           JSON_stringify_pretty (resultData ?op (JArr rows) ?g))"
    and fault: "s3_fault w' = None"
    by blast
  have stored: "s3_objects w' (js ''results/'' @ ?key)
           = Some (JSON_stringify_pretty (resultData ?op (JArr rows) ?g))"
    unfolding objects file_name_of_key(1) [OF assms(2)] by simp
  have nonempty: "?key \<noteq> []"
    by (simp add: js_def)
  from download_of_stored [OF fault nonempty stored assms(3)]
  have answer: "handleS3Download w' (download_event ?key) =
         \<lparr>statusCode = 200, headers = download_headers,
          body = JSON_stringify (JObj
            [(js ''success'', JBool True),
             (js ''data'', JArr rows),
             (js ''metadata'', JObj
                [(js ''operation'', JStr name),
                 (js ''generatedAt'', JStr ?g),
                 (js ''recordCount'', JNum (int (length rows))),
                 (js ''source'', JStr (js ''s3''))])])\<rparr>" .
  from run url count answer answer_read_back [OF assms(3), of name ?g]
  show ?thesis
    by (intro exI [of _ r] exI [of _ w'] exI [of _ ?key] exI [of _ ?g])
       (simp add: file_name_of_key(2) [OF assms(2)])
qed

theorem spilled_rows_read_back_witness:
  "\<exists>r w' key generatedAt.
      saveLargeResultToS3 demo_world (JArr [JObj [(js ''k'', JNum 7)], JObj [(js ''k'', JNum 8)]])
          (Some (JStr (js ''customer_analysis''))) 17 = (Inr (Large r), w')
    \<and> lr_downloadUrl r = js ''/download/'' @ key
    \<and> lr_recordCount r = Some 2
    \<and> JSON_parse (body (handleS3Download w' (download_event key))) =
         Some (JObj
            [(js ''success'', JBool True),
             (js ''data'', JArr [JObj [(js ''k'', JNum 7)], JObj [(js ''k'', JNum 8)]]),
             (js ''metadata'', JObj
                [(js ''operation'', JStr (js ''customer_analysis'')),
                 (js ''generatedAt'', JStr generatedAt),
                 (js ''recordCount'', JNum 2),
                 (js ''source'', JStr (js ''s3''))])])"
proof -
  have 1: "s3_fault demo_world = None"
    by (simp add: demo_world_def world_reporting_def)
  have 2: "js ''customer_analysis'' \<in> set registered_operations"
    by (simp add: registered_operations_def)
  have 3: "wf_json (JArr [JObj [(js ''k'', JNum 7)], JObj [(js ''k'', JNum 8)]])"
    by (simp add: integer_name_def js_def is_digit_def MAX_SAFE_INTEGER_def)
  have 4: "length [JObj [(js ''k'', JNum 7)], JObj [(js ''k'', JNum 8)]] = 2"
    by simp
  from spilled_rows_read_back [OF 1 2 3, of 17]
  show ?thesis
    unfolding 4 by (simp only: of_nat_numeral) blast
qed

end
